theory Spec2Isabelle
  imports Main "HOL-Library.Word" "HOL-Library.Sublist" "HOL-Library.AList"
begin

unbundle bit_operations_syntax

section \<open>Python outcomes\<close>

text \<open>
  Every exception the modelled code can raise is a value.  A function that may raise
  returns \<open>py_error + 'a\<close>, with \<open>Inl\<close> carrying the exception.
\<close>

datatype py_error =
    KeyError string
  | IndexError
  | ValueError string
  | ZeroDivisionError
  | StructError
  | TypeError
  | FileNotFoundError string
  | JSONDecodeError string
  | IsADirectoryError
  | Unsupported

section \<open>The hash primitive (DJZ_ZeroEDIT.py, lines 99-111)\<close>

subsection \<open>xxHash32, the digest computed by \<open>xxhash.xxh32(seed=s).update(data).intdigest()\<close>\<close>

type_synonym u32 = "32 word"
type_synonym byte = "8 word"

definition PRIME32_1 :: u32 where "PRIME32_1 = 0x9E3779B1"
definition PRIME32_2 :: u32 where "PRIME32_2 = 0x85EBCA77"
definition PRIME32_3 :: u32 where "PRIME32_3 = 0xC2B2AE3D"
definition PRIME32_4 :: u32 where "PRIME32_4 = 0x27D4EB2F"
definition PRIME32_5 :: u32 where "PRIME32_5 = 0x165667B1"

definition rotl32 :: "u32 \<Rightarrow> nat \<Rightarrow> u32" where
  "rotl32 x r = (push_bit r x) OR (drop_bit (32 - r) x)"

definition read32le :: "byte \<Rightarrow> byte \<Rightarrow> byte \<Rightarrow> byte \<Rightarrow> u32" where
  "read32le b0 b1 b2 b3 =
     ucast b0 OR push_bit 8 (ucast b1) OR push_bit 16 (ucast b2) OR push_bit 24 (ucast b3)"

definition xxh32_round :: "u32 \<Rightarrow> u32 \<Rightarrow> u32" where
  "xxh32_round acc w = rotl32 (acc + w * PRIME32_2) 13 * PRIME32_1"

text \<open>The four accumulators consume the input in stripes of 16 bytes.\<close>

fun xxh32_stripes :: "u32 \<times> u32 \<times> u32 \<times> u32 \<Rightarrow> byte list \<Rightarrow> (u32 \<times> u32 \<times> u32 \<times> u32) \<times> byte list" where
  "xxh32_stripes (v1, v2, v3, v4)
      (a0 # a1 # a2 # a3 # b0 # b1 # b2 # b3 # c0 # c1 # c2 # c3 # d0 # d1 # d2 # d3 # rest) =
     xxh32_stripes
       (xxh32_round v1 (read32le a0 a1 a2 a3), xxh32_round v2 (read32le b0 b1 b2 b3),
        xxh32_round v3 (read32le c0 c1 c2 c3), xxh32_round v4 (read32le d0 d1 d2 d3)) rest"
| "xxh32_stripes vs bs = (vs, bs)"

text \<open>The tail: whole 32-bit lanes first, then single bytes.\<close>

fun xxh32_tail :: "u32 \<Rightarrow> byte list \<Rightarrow> u32" where
  "xxh32_tail h (b0 # b1 # b2 # b3 # rest) =
     xxh32_tail (rotl32 (h + read32le b0 b1 b2 b3 * PRIME32_3) 17 * PRIME32_4) rest"
| "xxh32_tail h (b # rest) = xxh32_tail (rotl32 (h + ucast b * PRIME32_5) 11 * PRIME32_1) rest"
| "xxh32_tail h [] = h"

definition xxh32_avalanche :: "u32 \<Rightarrow> u32" where
  "xxh32_avalanche h0 =
     (let h1 = (h0 XOR drop_bit 15 h0) * PRIME32_2;
          h2 = (h1 XOR drop_bit 13 h1) * PRIME32_3
      in h2 XOR drop_bit 16 h2)"

definition xxh32 :: "u32 \<Rightarrow> byte list \<Rightarrow> u32" where
  "xxh32 seed bs =
     (let (h, rest) =
            (if 16 \<le> length bs then
               (case xxh32_stripes (seed + PRIME32_1 + PRIME32_2, seed + PRIME32_2, seed, seed - PRIME32_1) bs of
                  ((v1, v2, v3, v4), rest) \<Rightarrow>
                    (rotl32 v1 1 + rotl32 v2 7 + rotl32 v3 12 + rotl32 v4 18, rest))
             else (seed + PRIME32_5, bs))
      in xxh32_avalanche (xxh32_tail (h + of_nat (length bs)) rest))"

subsection \<open>\<open>struct.pack('<' + 'i' * len(coords), *coords)\<close>\<close>

text \<open>
  Each coordinate is written as a signed 32-bit little-endian integer.  \<open>struct.pack\<close>
  raises \<open>struct.error\<close> for a coordinate outside \<open>[-2^31, 2^31 - 1]\<close>.
\<close>

definition int32_ok :: "int \<Rightarrow> bool" where
  "int32_ok c \<longleftrightarrow> - (2 ^ 31) \<le> c \<and> c \<le> 2 ^ 31 - 1"

definition le_bytes32 :: "int \<Rightarrow> byte list" where
  "le_bytes32 c =
     (let w = (word_of_int c :: u32)
      in [ucast w, ucast (drop_bit 8 w), ucast (drop_bit 16 w), ucast (drop_bit 24 w)])"

fun struct_pack_i :: "int list \<Rightarrow> py_error + byte list" where
  "struct_pack_i [] = Inr []"
| "struct_pack_i (c # cs) =
     (if int32_ok c then
        (case struct_pack_i cs of Inl e \<Rightarrow> Inl e | Inr bs \<Rightarrow> Inr (le_bytes32 c @ bs))
      else Inl StructError)"

subsection \<open>\<open>edit_hash\<close> and \<open>hash_to_index\<close>\<close>

text \<open>
  \<open>edit_hash(seed, *coords)\<close>: the seed is masked with \<open>0xFFFFFFFF\<close>, the coordinates are
  packed, the digest is returned as a Python integer.
\<close>

definition edit_hash :: "int \<Rightarrow> int list \<Rightarrow> py_error + int" where
  "edit_hash seed coords =
     (case struct_pack_i coords of
        Inl e \<Rightarrow> Inl e
      | Inr bs \<Rightarrow> Inr (uint (xxh32 (word_of_int (seed AND 0xFFFFFFFF)) bs)))"

text \<open>\<open>h % pool_size\<close>: Python raises \<open>ZeroDivisionError\<close> for a zero modulus.\<close>

definition hash_to_index :: "int \<Rightarrow> nat \<Rightarrow> py_error + nat" where
  "hash_to_index h pool_size =
     (if pool_size = 0 then Inl ZeroDivisionError else Inr (nat (h mod int pool_size)))"

section \<open>Python string operations used by the generator\<close>

text \<open>
  Strings are character lists.  The character classes used below (digits, letters, white
  space, word characters) are those of ASCII text; what Python does with characters
  beyond ASCII is outside the model.
\<close>

subsection \<open>\<open>str.replace(old, new)\<close>\<close>

text \<open>
  Occurrences are replaced left to right without overlap.  An empty \<open>old\<close> matches before
  every character and at the end.
\<close>

function py_replace :: "string \<Rightarrow> string \<Rightarrow> string \<Rightarrow> string" where
  "py_replace [] old new = (if old = [] then new else [])"
| "py_replace (c # cs) old new =
     (if old = [] then new @ c # py_replace cs old new
      else if prefix old (c # cs) then new @ py_replace (drop (length old) (c # cs)) old new
      else c # py_replace cs old new)"
  by pat_completeness auto
termination
  by (relation "measure (\<lambda>(s, old, new). length s)") (auto simp: neq_Nil_conv)

subsection \<open>\<open>str.format(**kwargs)\<close>\<close>

text \<open>
  The format string is read left to right, as CPython's markup iterator does: literal
  text is copied, \<open>{{\<close> and \<open>}}\<close> stand for one brace, and \<open>{field}\<close> is parsed and then
  rendered at once, so the first defect met decides the exception.

  A replacement field is \<open>{name}\<close>, \<open>{name!c}\<close>, \<open>{name:spec}\<close> or \<open>{name!c:spec}\<close>.
\<close>

record fmt_field =
  field_name :: string
  conversion :: "char option"
  format_spec :: string

text \<open>The field name ends at \<open>}\<close>, \<open>:\<close> or \<open>!\<close>; inside \<open>[...]\<close> nothing ends it.\<close>

fun scan_field_name :: "bool \<Rightarrow> string \<Rightarrow> string \<Rightarrow> py_error + (string \<times> char \<times> string)" where
  "scan_field_name inb acc [] = Inl (ValueError ''expected '}' before end of string'')"
| "scan_field_name True acc (c # cs) =
     (if c = CHR '']'' then scan_field_name False (acc @ [c]) cs
      else scan_field_name True (acc @ [c]) cs)"
| "scan_field_name False acc (c # cs) =
     (if c = CHR ''{'' then Inl (ValueError ''unexpected '{' in field name'')
      else if c = CHR ''['' then scan_field_name True (acc @ [c]) cs
      else if c = CHR ''}'' \<or> c = CHR '':'' \<or> c = CHR ''!'' then Inr (acc, c, cs)
      else scan_field_name False (acc @ [c]) cs)"

text \<open>The format spec ends at the brace that closes the field; nested braces are counted.\<close>

fun scan_format_spec :: "nat \<Rightarrow> string \<Rightarrow> string \<Rightarrow> py_error + (string \<times> string)" where
  "scan_format_spec n acc [] = Inl (ValueError ''unmatched '{' in format spec'')"
| "scan_format_spec n acc (c # cs) =
     (if c = CHR ''{'' then scan_format_spec (Suc n) (acc @ [c]) cs
      else if c = CHR ''}'' then
        (if n = 1 then Inr (acc, cs) else scan_format_spec (n - 1) (acc @ [c]) cs)
      else scan_format_spec n (acc @ [c]) cs)"

text \<open>\<open>parse_field s\<close> reads a field from the text after its opening brace.\<close>

definition parse_field :: "string \<Rightarrow> py_error + (fmt_field \<times> string)" where
  "parse_field s =
     (case scan_field_name False [] s of
        Inl e \<Rightarrow> Inl e
      | Inr (name, c, rest) \<Rightarrow>
          if c = CHR ''}'' then
            Inr (\<lparr>field_name = name, conversion = None, format_spec = []\<rparr>, rest)
          else if c = CHR ''!'' then
            (case rest of
               [] \<Rightarrow> Inl (ValueError ''end of string while looking for conversion specifier'')
             | cv # rest1 \<Rightarrow>
                 (case rest1 of
                    [] \<Rightarrow> Inl (ValueError ''unmatched '{' in format spec'')
                  | c2 # rest2 \<Rightarrow>
                      if c2 = CHR ''}'' then
                        Inr (\<lparr>field_name = name, conversion = Some cv, format_spec = []\<rparr>, rest2)
                      else if c2 \<noteq> CHR '':'' then
                        Inl (ValueError ''expected ':' after conversion specifier'')
                      else
                        (case scan_format_spec 1 [] rest2 of
                           Inl e \<Rightarrow> Inl e
                         | Inr (sp, rest3) \<Rightarrow>
                             Inr (\<lparr>field_name = name, conversion = Some cv, format_spec = sp\<rparr>, rest3))))
          else
            (case scan_format_spec 1 [] rest of
               Inl e \<Rightarrow> Inl e
             | Inr (sp, rest3) \<Rightarrow>
                 Inr (\<lparr>field_name = name, conversion = None, format_spec = sp\<rparr>, rest3)))"

definition is_digit :: "char \<Rightarrow> bool" where
  "is_digit c \<longleftrightarrow> 48 \<le> (of_char c :: nat) \<and> (of_char c :: nat) \<le> 57"

text \<open>
  CPython's \<open>get_integer\<close> on the first part of a field name: the digits are read left to
  right; the first character that is not a digit makes the name a keyword, and a digit
  that would take the number beyond \<open>PY_SSIZE_T_MAX\<close> (\<open>sys.maxsize\<close>, \<open>2^63 - 1\<close> on a 64-bit
  build) raises \<open>ValueError\<close> there and then, whatever follows.
\<close>

datatype field_index = Keyword | TooManyDigits | Position int

definition PY_SSIZE_T_MAX :: int where
  "PY_SSIZE_T_MAX = 9223372036854775807"

fun get_integer :: "int \<Rightarrow> string \<Rightarrow> field_index" where
  "get_integer accumulator [] = Position accumulator"
| "get_integer accumulator (c # cs) =
     (if \<not> is_digit c then Keyword
      else if accumulator > (PY_SSIZE_T_MAX - (of_char c - 48)) div 10 then TooManyDigits
      else get_integer (accumulator * 10 + (of_char c - 48)) cs)"

text \<open>
  Rendering a field against the keyword arguments.  The first part of the name (up to
  \<open>.\<close> or \<open>[\<close>) selects the argument: an empty name or a number is positional, and
  \<open>format\<close> is called without positional arguments, so that is an \<open>IndexError\<close>; a keyword
  is looked up among the keyword arguments, \<open>KeyError\<close> when absent.  A plain field yields
  the string unchanged.  Attribute or item access, a conversion and a non-empty format
  spec are not modelled: such a field, once its argument is found, has the outcome
  \<open>Unsupported\<close>.
\<close>

definition render_field :: "fmt_field \<Rightarrow> (string \<times> string) list \<Rightarrow> py_error + string" where
  "render_field f kwargs =
     (let first = takeWhile (\<lambda>c. c \<noteq> CHR ''.'' \<and> c \<noteq> CHR ''['') (field_name f);
          rest = dropWhile (\<lambda>c. c \<noteq> CHR ''.'' \<and> c \<noteq> CHR ''['') (field_name f)
      in if first = [] then Inl IndexError
         else
           (case get_integer 0 first of
              TooManyDigits \<Rightarrow> Inl (ValueError ''Too many decimal digits in format string'')
            | Position i \<Rightarrow> Inl IndexError
            | Keyword \<Rightarrow>
                (case map_of kwargs first of
                   None \<Rightarrow> Inl (KeyError first)
                 | Some v \<Rightarrow>
                     if rest = [] \<and> conversion f = None \<and> format_spec f = [] then Inr v
                     else Inl Unsupported)))"

lemma scan_format_spec_length:
  "scan_format_spec n acc s = Inr (sp, rest) \<Longrightarrow> length rest < length s"
  by (induction n acc s rule: scan_format_spec.induct) (auto split: if_splits)

lemma scan_field_name_length:
  "scan_field_name b acc s = Inr (name, c, rest) \<Longrightarrow> length rest < length s"
  by (induction b acc s rule: scan_field_name.induct) (auto split: if_splits)

lemma parse_field_length:
  assumes "parse_field s = Inr (f, rest)"
  shows "length rest < length s"
  using assms
  by (auto simp: parse_field_def split: sum.splits prod.splits if_splits list.splits
      dest!: scan_format_spec_length scan_field_name_length)

function py_format_from :: "string \<Rightarrow> (string \<times> string) list \<Rightarrow> string \<Rightarrow> py_error + string" where
  "py_format_from [] kwargs out = Inr out"
| "py_format_from (c # cs) kwargs out =
     (if c = CHR ''}'' then
        (case cs of
           [] \<Rightarrow> Inl (ValueError ''Single '}' encountered in format string'')
         | d # ds \<Rightarrow>
             if d = CHR ''}'' then py_format_from ds kwargs (out @ [c])
             else Inl (ValueError ''Single '}' encountered in format string''))
      else if c = CHR ''{'' then
        (case cs of
           [] \<Rightarrow> Inl (ValueError ''Single '{' encountered in format string'')
         | d # ds \<Rightarrow>
             if d = CHR ''{'' then py_format_from ds kwargs (out @ [c])
             else
               (case parse_field cs of
                  Inl e \<Rightarrow> Inl e
                | Inr (f, rest) \<Rightarrow>
                    (case render_field f kwargs of
                       Inl e \<Rightarrow> Inl e
                     | Inr v \<Rightarrow> py_format_from rest kwargs (out @ v))))
      else py_format_from cs kwargs (out @ [c]))"
  by pat_completeness auto
termination
  by (relation "measure (\<lambda>(s, kwargs, out). length s)")
     (auto dest: parse_field_length)

definition py_format :: "string \<Rightarrow> (string \<times> string) list \<Rightarrow> py_error + string" where
  "py_format template kwargs = py_format_from template kwargs []"

section \<open>Profiles\<close>

text \<open>
  A profile is the dictionary read from a profile file.  The generator and the tools use
  its \<open>templates\<close> (a list of strings) and its \<open>pools\<close> (a dictionary from pool names to
  lists of strings); \<open>name\<close>, \<open>description\<close> and \<open>version\<close> are metadata.  A Python
  dictionary keeps its insertion order, and the code depends on that order, so \<open>pools\<close>
  is the list of the dictionary's items in iteration order; the keys of a dictionary are
  pairwise distinct.
\<close>

record profile =
  name :: string
  description :: string
  version :: string
  templates :: "string list"
  pools :: "(string \<times> string list) list"

definition dict_ok :: "profile \<Rightarrow> bool" where
  "dict_ok p \<longleftrightarrow> distinct (map fst (pools p))"

text \<open>\<open>xs[i]\<close> for a non-negative index.\<close>

definition py_index :: "'a list \<Rightarrow> nat \<Rightarrow> py_error + 'a" where
  "py_index xs i = (if i < length xs then Inr (xs ! i) else Inl IndexError)"

section \<open>Total combinations (DJZ_ZeroEDIT.py, lines 87-92; validate_profile.py, lines 110-115)\<close>

text \<open>
  \<open>total = len(templates)\<close>, then \<open>total *= len(pool)\<close> for every pool in turn.  The two
  files hold the same function.  The defaults of \<open>profile.get\<close> serve a dictionary without
  the key; a \<open>profile\<close> always has both fields.
\<close>

definition calculate_combinations :: "profile \<Rightarrow> nat" where
  "calculate_combinations p =
     fold (\<lambda>pool total. total * length pool) (map snd (pools p)) (length (templates p))"

definition vp_calculate_combinations :: "profile \<Rightarrow> nat" where
  "vp_calculate_combinations p =
     fold (\<lambda>pool total. total * length pool) (map snd (pools p)) (length (templates p))"

section \<open>Prompt generation (DJZ_ZeroEDIT.py, lines 118-150)\<close>

text \<open>
  The loop \<open>for i, (key, pool) in enumerate(pools.items())\<close>: the pool at position \<open>i\<close> is
  hashed at coordinate \<open>i + 1\<close> and its selected entry is stored under its key.
\<close>

fun build_components ::
  "int \<Rightarrow> int \<Rightarrow> nat \<Rightarrow> (string \<times> string list) list \<Rightarrow> (string \<times> string) list
     \<Rightarrow> py_error + (string \<times> string) list" where
  "build_components seed prompt_idx i [] components = Inr components"
| "build_components seed prompt_idx i ((key, pool) # rest) components =
     (case edit_hash seed [prompt_idx, int i + 1] of
        Inl e \<Rightarrow> Inl e
      | Inr component_hash \<Rightarrow>
          (case hash_to_index component_hash (length pool) of
             Inl e \<Rightarrow> Inl e
           | Inr j \<Rightarrow>
               (case py_index pool j of
                  Inl e \<Rightarrow> Inl e
                | Inr v \<Rightarrow>
                    build_components seed prompt_idx (Suc i) rest (AList.update key v components))))"

text \<open>
  The fallback of the \<open>except KeyError\<close> branch: for every key of \<open>pools\<close>, the text
  \<open>{key}\<close> is replaced by \<open>components.get(key, "[key]")\<close>.
\<close>

definition partial_substitute ::
  "string \<Rightarrow> string list \<Rightarrow> (string \<times> string) list \<Rightarrow> string" where
  "partial_substitute template keys components =
     fold (\<lambda>key t. py_replace t (CHR ''{'' # key @ ''}'')
                      (case map_of components key of
                         Some v \<Rightarrow> v
                       | None \<Rightarrow> CHR ''['' # key @ '']''))
          keys template"

text \<open>\<open>try: return template.format(**components)\<close>, with only \<open>KeyError\<close> caught.\<close>

definition render_template ::
  "string \<Rightarrow> string list \<Rightarrow> (string \<times> string) list \<Rightarrow> py_error + string" where
  "render_template template keys components =
     (case py_format template components of
        Inr s \<Rightarrow> Inr s
      | Inl (KeyError k) \<Rightarrow> Inr (partial_substitute template keys components)
      | Inl e \<Rightarrow> Inl e)"

definition generate_edit_prompt :: "int \<Rightarrow> int \<Rightarrow> profile \<Rightarrow> py_error + string" where
  "generate_edit_prompt seed prompt_idx p =
     (case edit_hash seed [prompt_idx, 0] of
        Inl e \<Rightarrow> Inl e
      | Inr template_hash \<Rightarrow>
          (case hash_to_index template_hash (length (templates p)) of
             Inl e \<Rightarrow> Inl e
           | Inr ti \<Rightarrow>
               (case py_index (templates p) ti of
                  Inl e \<Rightarrow> Inl e
                | Inr template \<Rightarrow>
                    (case build_components seed prompt_idx 0 (pools p) [] of
                       Inl e \<Rightarrow> Inl e
                     | Inr components \<Rightarrow>
                         render_template template (map fst (pools p)) components))))"

section \<open>Templates as the specification describes them\<close>

text \<open>
  The specification speaks of a template as text with named placeholders \<open>{identifier}\<close>.
  The definitions of this section follow those words, not the code: a template is a
  list of pieces, \<open>template_text\<close> is the string a profile file holds for it, and
  \<open>substitute\<close> is the rendering the specification asks for.  They are compared with
  \<open>py_format\<close> below.

  A name is plain when \<open>str.format\<close> reads it as a keyword: it is not empty, has none of
  the characters that end or structure a field name, and \<open>get_integer\<close> meets a character
  that is not a digit before the digits overflow.  A piece is well formed when it is
  brace-free text or a placeholder with a plain name, whether or not a pool has that
  name.
\<close>

datatype piece = Text string | Placeholder string

definition name_char :: "char \<Rightarrow> bool" where
  "name_char c \<longleftrightarrow> c \<notin> set ''{}[].!:''"

definition plain_name :: "string \<Rightarrow> bool" where
  "plain_name n \<longleftrightarrow> n \<noteq> [] \<and> list_all name_char n \<and> get_integer 0 n = Keyword"

fun piece_wf :: "piece \<Rightarrow> bool" where
  "piece_wf (Text s) \<longleftrightarrow> CHR ''{'' \<notin> set s \<and> CHR ''}'' \<notin> set s"
| "piece_wf (Placeholder n) \<longleftrightarrow> plain_name n"

fun piece_ok :: "string list \<Rightarrow> piece \<Rightarrow> bool" where
  "piece_ok keys (Text s) \<longleftrightarrow> CHR ''{'' \<notin> set s \<and> CHR ''}'' \<notin> set s"
| "piece_ok keys (Placeholder n) \<longleftrightarrow> plain_name n \<and> n \<in> set keys"

fun piece_text :: "piece \<Rightarrow> string" where
  "piece_text (Text s) = s"
| "piece_text (Placeholder n) = CHR ''{'' # n @ ''}''"

definition template_text :: "piece list \<Rightarrow> string" where
  "template_text ps = concat (map piece_text ps)"

fun piece_value :: "(string \<times> string) list \<Rightarrow> piece \<Rightarrow> string" where
  "piece_value components (Text s) = s"
| "piece_value components (Placeholder n) =
     (case map_of components n of Some v \<Rightarrow> v | None \<Rightarrow> CHR ''{'' # n @ ''}'')"

definition substitute :: "(string \<times> string) list \<Rightarrow> piece list \<Rightarrow> string" where
  "substitute components ps = concat (map (piece_value components) ps)"

section \<open>The validator (Skill/validate_profile.py, lines 52-107)\<close>

text \<open>
  The profile is well-typed here: \<open>templates\<close> is a list of strings and every pool is a
  list of strings, so the \<open>isinstance\<close> branches of the validator ("must be a list", "is
  not a string") are never taken and are left out.
\<close>

subsection \<open>\<open>str(i)\<close>, \<open>str.lower()\<close>, \<open>str.strip()\<close> and the class \<open>\w\<close>\<close>

definition digit_char :: "nat \<Rightarrow> char" where
  "digit_char d = ''0123456789'' ! d"

function py_str_nat :: "nat \<Rightarrow> string" where
  "py_str_nat n = (if n < 10 then [digit_char n] else py_str_nat (n div 10) @ [digit_char (n mod 10)])"
  by pat_completeness auto
termination
  by (relation "measure id") auto

declare py_str_nat.simps [simp del]

definition py_str_int :: "int \<Rightarrow> string" where
  "py_str_int k = (if k < 0 then CHR ''-'' # py_str_nat (nat (- k)) else py_str_nat (nat k))"

definition lower_char :: "char \<Rightarrow> char" where
  "lower_char c =
     (case map_of (zip ''ABCDEFGHIJKLMNOPQRSTUVWXYZ'' ''abcdefghijklmnopqrstuvwxyz'') c of
        Some d \<Rightarrow> d
      | None \<Rightarrow> c)"

definition py_lower :: "string \<Rightarrow> string" where
  "py_lower s = map lower_char s"

definition is_space :: "char \<Rightarrow> bool" where
  "is_space c \<longleftrightarrow> (of_char c :: nat) \<in> {9, 10, 11, 12, 13, 28, 29, 30, 31, 32}"

definition py_strip :: "string \<Rightarrow> string" where
  "py_strip s = rev (dropWhile is_space (rev (dropWhile is_space s)))"

definition is_word :: "char \<Rightarrow> bool" where
  "is_word c \<longleftrightarrow>
     (let n = (of_char c :: nat)
      in (48 \<le> n \<and> n \<le> 57) \<or> (65 \<le> n \<and> n \<le> 90) \<or> (97 \<le> n \<and> n \<le> 122) \<or> n = 95)"

definition quoted :: "string \<Rightarrow> string" where
  "quoted s = CHR 0x27 # s @ [CHR 0x27]"

subsection \<open>\<open>validate_pools\<close>\<close>

text \<open>The loop over the items with the set \<open>seen\<close> of lower-cased items met so far.\<close>

fun duplicate_findings :: "string \<Rightarrow> string list \<Rightarrow> string list \<Rightarrow> string list" where
  "duplicate_findings pool_name seen [] = []"
| "duplicate_findings pool_name seen (item # items) =
     (if py_lower item \<in> set seen
      then [''Duplicate entry in pool '' @ quoted pool_name @ '': '' @ quoted item]
      else [])
     @ duplicate_findings pool_name (py_lower item # seen) items"

text \<open>The loop \<open>for i, item in enumerate(pool_items)\<close> looking for blank strings.\<close>

fun blank_findings :: "string \<Rightarrow> nat \<Rightarrow> string list \<Rightarrow> string list" where
  "blank_findings pool_name i [] = []"
| "blank_findings pool_name i (item # items) =
     (if py_strip item = []
      then [''Empty string at index '' @ py_str_nat i @ '' in pool '' @ quoted pool_name]
      else [])
     @ blank_findings pool_name (Suc i) items"

definition pool_findings :: "string \<times> string list \<Rightarrow> string list" where
  "pool_findings kv =
     (case kv of (pool_name, pool_items) \<Rightarrow>
        if pool_items = [] then [''Pool '' @ quoted pool_name @ '' is empty'']
        else duplicate_findings pool_name [] pool_items @ blank_findings pool_name 0 pool_items)"

definition validate_pools :: "profile \<Rightarrow> string list" where
  "validate_pools p = concat (map pool_findings (pools p))"

subsection \<open>\<open>validate_templates\<close>\<close>

text \<open>
  \<open>re.compile(r'\{(\w+)\}')\<close> tried at the start of a string: an opening brace, the
  longest non-empty run of word characters, a closing brace.  A closing brace is not a
  word character, so a shorter run never matches where the longest does not.
\<close>

definition match_placeholder :: "string \<Rightarrow> (string \<times> string) option" where
  "match_placeholder s =
     (case s of
        [] \<Rightarrow> None
      | c # cs \<Rightarrow>
          if c = CHR ''{'' then
            (case dropWhile is_word cs of
               [] \<Rightarrow> None
             | d # rest \<Rightarrow>
                 if d = CHR ''}'' \<and> takeWhile is_word cs \<noteq> [] then Some (takeWhile is_word cs, rest)
                 else None)
          else None)"

lemma match_placeholder_shorter:
  assumes "match_placeholder s = Some (w, rest)"
  shows "length rest < length s"
proof -
  from assms obtain cs d where s: "s = CHR ''{'' # cs" and dw: "dropWhile is_word cs = d # rest"
    by (auto simp: match_placeholder_def split: list.splits if_splits)
  have "length (dropWhile is_word cs) \<le> length cs"
    by (rule length_dropWhile_le)
  then show ?thesis
    by (simp add: s dw)
qed

text \<open>\<open>findall\<close>: matches are taken left to right and do not overlap.\<close>

function findall_placeholders :: "string \<Rightarrow> string list" where
  "findall_placeholders [] = []"
| "findall_placeholders (c # cs) =
     (case match_placeholder (c # cs) of
        Some (w, rest) \<Rightarrow> w # findall_placeholders rest
      | None \<Rightarrow> findall_placeholders cs)"
  by pat_completeness auto
termination
  by (relation "measure length") (auto dest: match_placeholder_shorter)

fun template_findings :: "string list \<Rightarrow> nat \<Rightarrow> string list \<Rightarrow> string list" where
  "template_findings pool_names i [] = []"
| "template_findings pool_names i (template # rest) =
     map (\<lambda>placeholder. ''Template '' @ py_str_nat i @ '' references undefined pool '' @ quoted placeholder)
         (filter (\<lambda>placeholder. placeholder \<notin> set pool_names) (findall_placeholders template))
     @ template_findings pool_names (Suc i) rest"

definition validate_templates :: "profile \<Rightarrow> string list" where
  "validate_templates p = template_findings (map fst (pools p)) 0 (templates p)"

subsection \<open>The defects the specification names\<close>

text \<open>
  These follow the specification's words.  A placeholder is an occurrence of
  \<open>{identifier}\<close> in the template; two entries are duplicates when they are equal after
  lower-casing; an entry is blank when it is empty or white space only.
\<close>

definition placeholder_in :: "string \<Rightarrow> string \<Rightarrow> bool" where
  "placeholder_in n t \<longleftrightarrow> n \<noteq> [] \<and> list_all is_word n \<and> sublist (CHR ''{'' # n @ ''}'') t"

definition has_empty_pool :: "profile \<Rightarrow> bool" where
  "has_empty_pool p \<longleftrightarrow> (\<exists>kv\<in>set (pools p). snd kv = [])"

definition has_duplicate_entry :: "profile \<Rightarrow> bool" where
  "has_duplicate_entry p \<longleftrightarrow> (\<exists>kv\<in>set (pools p). \<not> distinct (map py_lower (snd kv)))"

definition has_blank_entry :: "profile \<Rightarrow> bool" where
  "has_blank_entry p \<longleftrightarrow> (\<exists>kv\<in>set (pools p). \<exists>item\<in>set (snd kv). list_all is_space item)"

definition has_undefined_placeholder :: "profile \<Rightarrow> bool" where
  "has_undefined_placeholder p \<longleftrightarrow>
     (\<exists>t\<in>set (templates p). \<exists>n. placeholder_in n t \<and> n \<notin> fst ` set (pools p))"

section \<open>Loading a profile (DJZ_ZeroEDIT.py, lines 64-84)\<close>

text \<open>
  What \<open>json.load\<close> returns.  A JSON object is the list of its items in order; no modelled
  function looks inside a number, which is kept as an integer.
\<close>

datatype json =
    JNull
  | JBool bool
  | JNum int
  | JStr string
  | JArr "json list"
  | JObj "(string \<times> json) list"

text \<open>
  The profiles directory is seen through what \<open>profiles_dir / profile_name\<close> resolves to:
  nothing, a directory, a file that \<open>json.load\<close> decodes, or a file it rejects with a
  message.  A directory is the list of its entries.
\<close>

datatype fs_node = Directory | JsonFile json | BadFile string

type_synonym profiles_dir = "(string \<times> fs_node) list"

text \<open>
  \<open>key in value\<close>: key membership for a dictionary, element membership for a list,
  substring for a string, \<open>TypeError\<close> for the other JSON values.
\<close>

fun py_contains :: "json \<Rightarrow> string \<Rightarrow> py_error + bool" where
  "py_contains (JObj kvs) key = Inr (key \<in> fst ` set kvs)"
| "py_contains (JArr xs) key = Inr (JStr key \<in> set xs)"
| "py_contains (JStr s) key = Inr (sublist key s)"
| "py_contains v key = Inl TypeError"

definition load_profile :: "profiles_dir \<Rightarrow> string \<Rightarrow> py_error + json" where
  "load_profile dir profile_name =
     (case map_of dir profile_name of
        None \<Rightarrow> Inl (FileNotFoundError (''Profile not found: '' @ profile_name))
      | Some Directory \<Rightarrow> Inl IsADirectoryError
      | Some (BadFile msg) \<Rightarrow> Inl (JSONDecodeError msg)
      | Some (JsonFile profile) \<Rightarrow>
          (case py_contains profile ''templates'' of
             Inl e \<Rightarrow> Inl e
           | Inr has_templates \<Rightarrow>
               if \<not> has_templates then
                 Inl (ValueError (''Profile '' @ profile_name @ '' missing '' @ quoted ''templates'' @ '' field''))
               else
                 (case py_contains profile ''pools'' of
                    Inl e \<Rightarrow> Inl e
                  | Inr has_pools \<Rightarrow>
                      if \<not> has_pools then
                        Inl (ValueError (''Profile '' @ profile_name @ '' missing '' @ quoted ''pools'' @ '' field''))
                      else Inr profile)))"

section \<open>The generator node (DJZ_ZeroEDIT.py, lines 217-242)\<close>

text \<open>
  The generator reads a profile dictionary as a \<open>profile\<close> when \<open>templates\<close> is a list of
  strings and \<open>pools\<close> a dictionary of lists of strings.
\<close>

fun as_string :: "json \<Rightarrow> string option" where
  "as_string (JStr s) = Some s"
| "as_string v = None"

fun as_strings :: "json \<Rightarrow> string list option" where
  "as_strings (JArr xs) = (if list_all (\<lambda>x. as_string x \<noteq> None) xs then Some (map (the \<circ> as_string) xs) else None)"
| "as_strings v = None"

definition text_field :: "(string \<times> json) list \<Rightarrow> string \<Rightarrow> string" where
  "text_field kvs key = (case map_of kvs key of Some (JStr s) \<Rightarrow> s | _ \<Rightarrow> [])"

fun as_profile :: "json \<Rightarrow> profile option" where
  "as_profile (JObj kvs) =
     (case (map_of kvs ''templates'', map_of kvs ''pools'') of
        (Some t, Some (JObj ps)) \<Rightarrow>
          (case as_strings t of
             None \<Rightarrow> None
           | Some ts \<Rightarrow>
               if list_all (\<lambda>kv. as_strings (snd kv) \<noteq> None) ps then
                 Some \<lparr>name = text_field kvs ''name'', description = text_field kvs ''description'',
                       version = text_field kvs ''version'', templates = ts,
                       pools = map (\<lambda>kv. (fst kv, the (as_strings (snd kv)))) ps\<rparr>
               else None)
      | _ \<Rightarrow> None)"
| "as_profile v = None"

text \<open>
  The class-level \<open>_profile_cache\<close> is a dictionary from profile names to loaded
  profiles; \<open>generate\<close> returns its result (the string of the returned tuple, or the
  exception raised) together with the cache it leaves behind.

  \<open>except (FileNotFoundError, ValueError, json.JSONDecodeError) as e\<close>: the text \<open>str(e)\<close>
  of the exceptions that are caught.
\<close>

type_synonym profile_cache = "(string \<times> json) list"

fun caught_message :: "py_error \<Rightarrow> string option" where
  "caught_message (FileNotFoundError m) = Some m"
| "caught_message (ValueError m) = Some m"
| "caught_message (JSONDecodeError m) = Some m"
| "caught_message e = None"

text \<open>
  The part of \<open>generate\<close> after the cache is filled.  A cached dictionary that is not a
  well-typed profile is outside the typed generator; its outcome is \<open>Unsupported\<close>.
\<close>

definition generate_cached ::
  "profile_cache \<Rightarrow> string \<Rightarrow> int \<Rightarrow> int \<Rightarrow> string \<Rightarrow> string \<Rightarrow> py_error + string" where
  "generate_cached cache profile seed prompt_index prefix_str suffix_str =
     (case map_of cache profile of
        None \<Rightarrow> Inl (KeyError profile)
      | Some profile_data \<Rightarrow>
          (case as_profile profile_data of
             None \<Rightarrow> Inl Unsupported
           | Some p \<Rightarrow>
               (case generate_edit_prompt seed prompt_index p of
                  Inl e \<Rightarrow> Inl e
                | Inr prompt \<Rightarrow>
                    if prefix_str \<noteq> [] \<or> suffix_str \<noteq> [] then Inr (prefix_str @ prompt @ suffix_str)
                    else Inr prompt)))"

definition generate ::
  "profiles_dir \<Rightarrow> profile_cache \<Rightarrow> string \<Rightarrow> int \<Rightarrow> int \<Rightarrow> string \<Rightarrow> string
     \<Rightarrow> (py_error + string) \<times> profile_cache" where
  "generate dir cache profile seed prompt_index prefix_str suffix_str =
     (if map_of cache profile = None then
        (case load_profile dir profile of
           Inl e \<Rightarrow>
             (case caught_message e of
                Some m \<Rightarrow>
                  (Inr (''[Error loading profile '' @ quoted profile @ '': '' @ m @ '']''), cache)
              | None \<Rightarrow> (Inl e, cache))
         | Inr profile_data \<Rightarrow>
             (generate_cached (AList.update profile profile_data cache) profile seed prompt_index prefix_str suffix_str,
              AList.update profile profile_data cache))
      else (generate_cached cache profile seed prompt_index prefix_str suffix_str, cache))"

section \<open>MD5, the digest behind \<open>int(hashlib.md5(data).hexdigest(), 16)\<close>\<close>

text \<open>
  The validator's test output and the fallback of the statistics tool select with MD5
  (RFC 1321).  The message is padded to whole blocks of sixteen 32-bit little-endian
  words; every block runs 64 steps over the state \<open>(A, B, C, D)\<close>.
\<close>

definition md5_K :: "u32 list" where
  "md5_K =
     [0xd76aa478, 0xe8c7b756, 0x242070db, 0xc1bdceee,
      0xf57c0faf, 0x4787c62a, 0xa8304613, 0xfd469501,
      0x698098d8, 0x8b44f7af, 0xffff5bb1, 0x895cd7be,
      0x6b901122, 0xfd987193, 0xa679438e, 0x49b40821,
      0xf61e2562, 0xc040b340, 0x265e5a51, 0xe9b6c7aa,
      0xd62f105d, 0x02441453, 0xd8a1e681, 0xe7d3fbc8,
      0x21e1cde6, 0xc33707d6, 0xf4d50d87, 0x455a14ed,
      0xa9e3e905, 0xfcefa3f8, 0x676f02d9, 0x8d2a4c8a,
      0xfffa3942, 0x8771f681, 0x6d9d6122, 0xfde5380c,
      0xa4beea44, 0x4bdecfa9, 0xf6bb4b60, 0xbebfbc70,
      0x289b7ec6, 0xeaa127fa, 0xd4ef3085, 0x04881d05,
      0xd9d4d039, 0xe6db99e5, 0x1fa27cf8, 0xc4ac5665,
      0xf4292244, 0x432aff97, 0xab9423a7, 0xfc93a039,
      0x655b59c3, 0x8f0ccc92, 0xffeff47d, 0x85845dd1,
      0x6fa87e4f, 0xfe2ce6e0, 0xa3014314, 0x4e0811a1,
      0xf7537e82, 0xbd3af235, 0x2ad7d2bb, 0xeb86d391]"

definition md5_s :: "nat list" where
  "md5_s =
     [7, 12, 17, 22, 7, 12, 17, 22, 7, 12, 17, 22, 7, 12, 17, 22,
      5, 9, 14, 20, 5, 9, 14, 20, 5, 9, 14, 20, 5, 9, 14, 20,
      4, 11, 16, 23, 4, 11, 16, 23, 4, 11, 16, 23, 4, 11, 16, 23,
      6, 10, 15, 21, 6, 10, 15, 21, 6, 10, 15, 21, 6, 10, 15, 21]"

definition md5_step :: "u32 list \<Rightarrow> u32 \<times> u32 \<times> u32 \<times> u32 \<Rightarrow> nat \<Rightarrow> u32 \<times> u32 \<times> u32 \<times> u32" where
  "md5_step M st i =
     (case st of (A, B, C, D) \<Rightarrow>
        (let F = (if i < 16 then (B AND C) OR (NOT B AND D)
                  else if i < 32 then (D AND B) OR (NOT D AND C)
                  else if i < 48 then B XOR C XOR D
                  else C XOR (B OR NOT D));
             g = (if i < 16 then i
                  else if i < 32 then (5 * i + 1) mod 16
                  else if i < 48 then (3 * i + 5) mod 16
                  else (7 * i) mod 16)
         in (D, B + rotl32 (F + A + md5_K ! i + M ! g) (md5_s ! i), B, C)))"

definition md5_block :: "u32 \<times> u32 \<times> u32 \<times> u32 \<Rightarrow> u32 list \<Rightarrow> u32 \<times> u32 \<times> u32 \<times> u32" where
  "md5_block st M =
     (case st of (a0, b0, c0, d0) \<Rightarrow>
        (case fold (\<lambda>i s. md5_step M s i) [0..<64] st of
           (A, B, C, D) \<Rightarrow> (a0 + A, b0 + B, c0 + C, d0 + D)))"

fun md5_blocks :: "u32 \<times> u32 \<times> u32 \<times> u32 \<Rightarrow> u32 list \<Rightarrow> u32 \<times> u32 \<times> u32 \<times> u32" where
  "md5_blocks st
     (w0 # w1 # w2 # w3 # w4 # w5 # w6 # w7 # w8 # w9 # w10 # w11 # w12 # w13 # w14 # w15 # rest) =
     md5_blocks
       (md5_block st [w0, w1, w2, w3, w4, w5, w6, w7, w8, w9, w10, w11, w12, w13, w14, w15]) rest"
| "md5_blocks st ws = st"

fun le_words :: "byte list \<Rightarrow> u32 list" where
  "le_words (b0 # b1 # b2 # b3 # rest) = read32le b0 b1 b2 b3 # le_words rest"
| "le_words bs = []"

definition le_bytes_of :: "u32 \<Rightarrow> byte list" where
  "le_bytes_of w = [ucast w, ucast (drop_bit 8 w), ucast (drop_bit 16 w), ucast (drop_bit 24 w)]"

definition md5_pad :: "byte list \<Rightarrow> byte list" where
  "md5_pad bs =
     bs @ [0x80] @ replicate ((119 - length bs mod 64) mod 64) 0
        @ le_bytes_of (word_of_int (8 * int (length bs)))
        @ le_bytes_of (word_of_int (8 * int (length bs) div 4294967296))"

definition md5_digest :: "byte list \<Rightarrow> byte list" where
  "md5_digest bs =
     (case md5_blocks (0x67452301, 0xefcdab89, 0x98badcfe, 0x10325476) (le_words (md5_pad bs)) of
        (a, b, c, d) \<Rightarrow> le_bytes_of a @ le_bytes_of b @ le_bytes_of c @ le_bytes_of d)"

text \<open>\<open>s.encode()\<close> of an ASCII string, and the digest read as one hexadecimal number.\<close>

definition encode :: "string \<Rightarrow> byte list" where
  "encode s = map (\<lambda>c. of_nat (of_char c)) s"

definition md5_int :: "string \<Rightarrow> int" where
  "md5_int s = foldl (\<lambda>acc b. acc * 256 + uint b) 0 (md5_digest (encode s))"

section \<open>The statistics tool (Skill/profile_stats.py, lines 30-63)\<close>

text \<open>\<open>h % n\<close> written in place, and \<open>sep.join(parts)\<close>.\<close>

definition py_mod :: "int \<Rightarrow> nat \<Rightarrow> py_error + nat" where
  "py_mod h n = (if n = 0 then Inl ZeroDivisionError else Inr (nat (h mod int n)))"

fun py_join :: "string \<Rightarrow> string list \<Rightarrow> string" where
  "py_join sep [] = []"
| "py_join sep [x] = x"
| "py_join sep (x # y # rest) = x @ sep @ py_join sep (y # rest)"

text \<open>
  \<open>hash_coords\<close>.  \<open>HAS_XXHASH\<close> records whether the \<open>xxhash\<close> module could be imported;
  without it the tool falls back to MD5 of the text \<open>seed:c1:c2...\<close>.
\<close>

definition hash_coords :: "bool \<Rightarrow> int \<Rightarrow> int list \<Rightarrow> py_error + int" where
  "hash_coords HAS_XXHASH seed coords =
     (if HAS_XXHASH then
        (case struct_pack_i coords of
           Inl e \<Rightarrow> Inl e
         | Inr bs \<Rightarrow> Inr (uint (xxh32 (word_of_int (seed AND 0xFFFFFFFF)) bs)))
      else Inr (md5_int (py_str_int seed @ '':'' @ py_join '':'' (map py_str_int coords))))"

fun ps_components ::
  "bool \<Rightarrow> int \<Rightarrow> int \<Rightarrow> nat \<Rightarrow> (string \<times> string list) list \<Rightarrow> (string \<times> string) list
     \<Rightarrow> py_error + (string \<times> string) list" where
  "ps_components HAS_XXHASH seed idx i [] components = Inr components"
| "ps_components HAS_XXHASH seed idx i ((key, pool) # rest) components =
     (case hash_coords HAS_XXHASH seed [idx, int i + 1] of
        Inl e \<Rightarrow> Inl e
      | Inr comp_hash \<Rightarrow>
          (case py_mod comp_hash (length pool) of
             Inl e \<Rightarrow> Inl e
           | Inr j \<Rightarrow>
               (case py_index pool j of
                  Inl e \<Rightarrow> Inl e
                | Inr v \<Rightarrow>
                    ps_components HAS_XXHASH seed idx (Suc i) rest (AList.update key v components))))"

text \<open>
  \<open>generate_prompt\<close>.  Its \<open>try\<close>/\<open>except KeyError\<close> block is, statement for statement,
  the one of \<open>generate_edit_prompt\<close>, that is \<open>render_template\<close>.
\<close>

definition generate_prompt :: "bool \<Rightarrow> int \<Rightarrow> int \<Rightarrow> profile \<Rightarrow> py_error + string" where
  "generate_prompt HAS_XXHASH seed idx p =
     (case hash_coords HAS_XXHASH seed [idx, 0] of
        Inl e \<Rightarrow> Inl e
      | Inr template_hash \<Rightarrow>
          (case py_mod template_hash (length (templates p)) of
             Inl e \<Rightarrow> Inl e
           | Inr ti \<Rightarrow>
               (case py_index (templates p) ti of
                  Inl e \<Rightarrow> Inl e
                | Inr template \<Rightarrow>
                    (case ps_components HAS_XXHASH seed idx 0 (pools p) [] of
                       Inl e \<Rightarrow> Inl e
                     | Inr components \<Rightarrow>
                         render_template template (map fst (pools p)) components))))"

section \<open>The validator's test output (Skill/validate_profile.py, lines 118-145)\<close>

text \<open>
  \<open>str(e)\<close> of a \<open>KeyError\<close> is the \<open>repr\<close> of the missing key: the key in quotes (double
  quotes when it holds a single quote and no double quote), with the quote, the
  backslash and the non-printable characters escaped.
\<close>

definition hex_digit :: "nat \<Rightarrow> char" where
  "hex_digit d = ''0123456789abcdef'' ! d"

definition repr_char :: "char \<Rightarrow> char \<Rightarrow> string" where
  "repr_char q c =
     (if c = q \<or> c = CHR 0x5C then [CHR 0x5C, c]
      else if c = CHR 0x09 then [CHR 0x5C, CHR ''t'']
      else if c = CHR 0x0A then [CHR 0x5C, CHR ''n'']
      else if c = CHR 0x0D then [CHR 0x5C, CHR ''r'']
      else if (of_char c :: nat) < 32 \<or> (of_char c :: nat) = 127 then
        [CHR 0x5C, CHR ''x'', hex_digit (of_char c div 16), hex_digit (of_char c mod 16)]
      else [c])"

definition py_repr :: "string \<Rightarrow> string" where
  "py_repr s =
     (let q = (if CHR 0x27 \<in> set s \<and> CHR 0x22 \<notin> set s then CHR 0x22 else CHR 0x27)
      in q # concat (map (repr_char q) s) @ [q])"

text \<open>
  The loop \<open>for i, (pool_name, pool_items) in enumerate(pools.items())\<close> of the test
  output, selecting with MD5 of the text \<open>seed-idx-(i+1)\<close>.
\<close>

fun vp_components ::
  "int \<Rightarrow> nat \<Rightarrow> nat \<Rightarrow> (string \<times> string list) list \<Rightarrow> (string \<times> string) list
     \<Rightarrow> py_error + (string \<times> string) list" where
  "vp_components seed idx i [] components = Inr components"
| "vp_components seed idx i ((pool_name, pool_items) # rest) components =
     (case py_mod (md5_int (py_str_int seed @ ''-'' @ py_str_nat idx @ ''-'' @ py_str_nat (i + 1)))
             (length pool_items) of
        Inl e \<Rightarrow> Inl e
      | Inr item_idx \<Rightarrow>
          (case py_index pool_items item_idx of
             Inl e \<Rightarrow> Inl e
           | Inr v \<Rightarrow> vp_components seed idx (Suc i) rest (AList.update pool_name v components)))"

text \<open>One pass of the loop \<open>for idx in range(count)\<close>: the output appended for \<open>idx\<close>.\<close>

definition test_output :: "profile \<Rightarrow> int \<Rightarrow> nat \<Rightarrow> py_error + string" where
  "test_output p seed idx =
     (case py_mod (md5_int (py_str_int seed @ ''-'' @ py_str_nat idx @ ''-0'')) (length (templates p)) of
        Inl e \<Rightarrow> Inl e
      | Inr template_idx \<Rightarrow>
          (case py_index (templates p) template_idx of
             Inl e \<Rightarrow> Inl e
           | Inr template \<Rightarrow>
               (case vp_components seed idx 0 (pools p) [] of
                  Inl e \<Rightarrow> Inl e
                | Inr components \<Rightarrow>
                    (case py_format template components of
                       Inr output \<Rightarrow> Inr output
                     | Inl (KeyError k) \<Rightarrow> Inr (''[ERROR: Missing pool '' @ py_repr k @ '']'')
                     | Inl e \<Rightarrow> Inl e))))"

fun test_outputs :: "profile \<Rightarrow> int \<Rightarrow> nat list \<Rightarrow> py_error + string list" where
  "test_outputs p seed [] = Inr []"
| "test_outputs p seed (idx # rest) =
     (case test_output p seed idx of
        Inl e \<Rightarrow> Inl e
      | Inr output \<Rightarrow>
          (case test_outputs p seed rest of
             Inl e \<Rightarrow> Inl e
           | Inr outputs \<Rightarrow> Inr (output # outputs)))"

definition generate_test_output :: "profile \<Rightarrow> int \<Rightarrow> nat \<Rightarrow> py_error + string list" where
  "generate_test_output p seed count = test_outputs p seed [0..<count]"

section \<open>Results\<close>

subsection \<open>Total combinations\<close>

lemma fold_times_length:
  "fold (\<lambda>pool total. total * length pool) ps t = t * prod_list (map length ps)"
  by (induction ps arbitrary: t) simp_all

text \<open>
  Claim C8.  For every profile, \<open>calculate_combinations\<close> (in the node module and in the
  validator alike) is the number of templates times the product of the pool sizes; with
  three templates and pools of four and five entries it is 60.
\<close>

theorem calculate_combinations_product:
  "calculate_combinations p = length (templates p) * prod_list (map (length \<circ> snd) (pools p))
   \<and> vp_calculate_combinations p = length (templates p) * prod_list (map (length \<circ> snd) (pools p))
   \<and> (length (templates p) = 3 \<and> map (length \<circ> snd) (pools p) = [4, 5]
        \<longrightarrow> calculate_combinations p = 60)"
  by (simp add: calculate_combinations_def vp_calculate_combinations_def fold_times_length)

theorem calculate_combinations_product_witness:
  "length (templates \<lparr>name = ''n'', description = ''d'', version = ''1'',
       templates = [''{action} the {target}'', ''{action}'', ''{target}''],
       pools = [(''action'', [''add'', ''remove'', ''replace'', ''blur'']),
                (''target'', [''sky'', ''tree'', ''car'', ''hat'', ''dog''])]\<rparr>) = 3
   \<and> map (length \<circ> snd) (pools \<lparr>name = ''n'', description = ''d'', version = ''1'',
       templates = [''{action} the {target}'', ''{action}'', ''{target}''],
       pools = [(''action'', [''add'', ''remove'', ''replace'', ''blur'']),
                (''target'', [''sky'', ''tree'', ''car'', ''hat'', ''dog''])]\<rparr>) = [4, 5]
   \<and> calculate_combinations \<lparr>name = ''n'', description = ''d'', version = ''1'',
       templates = [''{action} the {target}'', ''{action}'', ''{target}''],
       pools = [(''action'', [''add'', ''remove'', ''replace'', ''blur'']),
                (''target'', [''sky'', ''tree'', ''car'', ''hat'', ''dog''])]\<rparr> = 60"
  using calculate_combinations_product
    [of "\<lparr>name = ''n'', description = ''d'', version = ''1'',
       templates = [''{action} the {target}'', ''{action}'', ''{target}''],
       pools = [(''action'', [''add'', ''remove'', ''replace'', ''blur'']),
                (''target'', [''sky'', ''tree'', ''car'', ''hat'', ''dog''])]\<rparr>"]
  by simp

subsection \<open>The seed is reduced modulo \<open>2^32\<close>\<close>

lemma mask_seed: "(seed mod 2 ^ 32) AND 0xFFFFFFFF = seed AND (0xFFFFFFFF :: int)"
proof -
  have m: "(0xFFFFFFFF :: int) = mask 32"
    by (simp add: mask_eq_exp_minus_1)
  have a: "seed AND mask 32 = take_bit 32 seed"
    by (simp add: take_bit_eq_mask)
  have b: "seed mod 2 ^ 32 = take_bit 32 seed"
    by (simp add: take_bit_eq_mod)
  have "take_bit 32 seed AND mask 32 = take_bit 32 (take_bit 32 seed)"
    by (simp only: take_bit_eq_mask)
  then show ?thesis
    unfolding m a b by simp
qed

lemma edit_hash_seed_mod: "edit_hash (seed mod 2 ^ 32) coords = edit_hash seed coords"
  unfolding edit_hash_def mask_seed ..

lemma build_components_seed_mod:
  "build_components (seed mod 2 ^ 32) idx i ps comps = build_components seed idx i ps comps"
proof (induction ps arbitrary: i comps)
  case Nil
  show ?case by simp
next
  case (Cons a ps)
  obtain key pool where a: "a = (key, pool)"
    by (cases a)
  show ?case
    unfolding a build_components.simps edit_hash_seed_mod Cons.IH ..
qed

text \<open>
  Claim C9.  For every integer seed and every coordinate tuple, \<open>edit_hash\<close> gives the
  same outcome for \<open>seed\<close> and for \<open>seed mod 2^32\<close>, and so does \<open>generate_edit_prompt\<close>.
\<close>

theorem seed_wraparound:
  "edit_hash seed coords = edit_hash (seed mod 2 ^ 32) coords
   \<and> generate_edit_prompt seed idx p = generate_edit_prompt (seed mod 2 ^ 32) idx p"
  unfolding generate_edit_prompt_def edit_hash_seed_mod build_components_seed_mod by simp

subsection \<open>Coordinates outside the signed 32-bit range\<close>

text \<open>
  Claim C4.  The node accepts every index up to \<open>0xFFFFFFFF\<close>, but the coordinates are
  packed as signed 32-bit integers: at index \<open>2^31\<close> the hash raises \<open>struct.error\<close> and
  so does the generator, for a profile with non-empty templates and pools.
\<close>

theorem index_out_of_int32:
  "edit_hash 0 [2147483648, 0] = Inl StructError
   \<and> generate_edit_prompt 0 2147483648
        \<lparr>name = ''n'', description = ''d'', version = ''1'',
         templates = [''A {x} B {y}'', ''C {y}''],
         pools = [(''x'', [''p'', ''q'']), (''y'', [''r'', ''s'', ''t''])]\<rparr> = Inl StructError"
  by (simp add: generate_edit_prompt_def edit_hash_def int32_ok_def)

subsection \<open>A placeholder without a pool\<close>

text \<open>
  Claim C3.  The fallback loops over the keys of \<open>pools\<close> only, so the placeholder of a
  missing pool is never replaced: for the template \<open>{action} the {target}\<close> and the single
  pool \<open>action\<close>, the prompt is \<open>remove the {target}\<close>, without any \<open>[target]\<close> marker.
\<close>

theorem unresolved_placeholder_left_verbatim:
  "generate_edit_prompt 42 0
     \<lparr>name = ''n'', description = ''d'', version = ''1'',
      templates = [''{action} the {target}''],
      pools = [(''action'', [''remove''])]\<rparr> = Inr ''remove the {target}''"
  by (simp add: generate_edit_prompt_def edit_hash_def int32_ok_def hash_to_index_def py_index_def
      render_template_def py_format_def parse_field_def render_field_def is_digit_def
      partial_substitute_def)

subsection \<open>\<open>str.format\<close> on a template of text and plain placeholders\<close>

lemma scan_field_name_plain:
  "list_all name_char n \<Longrightarrow>
   scan_field_name False acc (n @ CHR ''}'' # rest) = Inr (acc @ n, CHR ''}'', rest)"
  by (induction n arbitrary: acc) (simp_all add: name_char_def)

lemma parse_field_plain:
  "list_all name_char n \<Longrightarrow>
   parse_field (n @ CHR ''}'' # rest)
     = Inr (\<lparr>field_name = n, conversion = None, format_spec = []\<rparr>, rest)"
  by (simp add: parse_field_def scan_field_name_plain)

lemma render_field_plain:
  assumes "plain_name n" and "map_of kwargs n = Some v"
  shows "render_field \<lparr>field_name = n, conversion = None, format_spec = []\<rparr> kwargs = Inr v"
proof -
  have all: "\<forall>c\<in>set n. c \<noteq> CHR ''.'' \<and> c \<noteq> CHR ''[''"
    using assms(1) by (auto simp: plain_name_def name_char_def list_all_iff)
  then have tw: "takeWhile (\<lambda>c. c \<noteq> CHR ''.'' \<and> c \<noteq> CHR ''['') n = n"
    by (simp add: takeWhile_eq_all_conv)
  from all have dw: "dropWhile (\<lambda>c. c \<noteq> CHR ''.'' \<and> c \<noteq> CHR ''['') n = []"
    by simp
  show ?thesis
    using assms by (simp add: render_field_def tw dw plain_name_def)
qed

lemma py_format_from_text:
  "CHR ''{'' \<notin> set s \<Longrightarrow> CHR ''}'' \<notin> set s \<Longrightarrow>
   py_format_from (s @ rest) kwargs out = py_format_from rest kwargs (out @ s)"
  by (induction s arbitrary: out) auto

lemma py_format_from_placeholder:
  assumes "plain_name n" and "map_of kwargs n = Some v"
  shows "py_format_from (CHR ''{'' # n @ CHR ''}'' # rest) kwargs out
           = py_format_from rest kwargs (out @ v)"
proof -
  from assms(1) obtain d ds where n: "n = d # ds" and d: "d \<noteq> CHR ''{''"
    by (cases n) (auto simp: plain_name_def name_char_def)
  have nc: "list_all name_char n"
    using assms(1) by (simp add: plain_name_def)
  have "py_format_from (CHR ''{'' # (d # ds) @ CHR ''}'' # rest) kwargs out
          = (case parse_field ((d # ds) @ CHR ''}'' # rest) of
               Inl e \<Rightarrow> Inl e
             | Inr (f, rest') \<Rightarrow>
                 (case render_field f kwargs of
                    Inl e \<Rightarrow> Inl e
                  | Inr v \<Rightarrow> py_format_from rest' kwargs (out @ v)))"
    using d by simp
  then show ?thesis
    using parse_field_plain [OF nc, of rest] render_field_plain [OF assms]
    by (simp add: n)
qed

lemma py_format_from_pieces:
  assumes "\<forall>x\<in>set ps. piece_ok (map fst kwargs) x"
  shows "py_format_from (template_text ps @ rest) kwargs out
           = py_format_from rest kwargs (out @ substitute kwargs ps)"
  using assms
proof (induction ps arbitrary: out)
  case Nil
  show ?case by (simp add: template_text_def substitute_def)
next
  case (Cons x ps)
  have IH: "\<And>out. py_format_from (template_text ps @ rest) kwargs out
              = py_format_from rest kwargs (out @ substitute kwargs ps)"
    using Cons by simp
  show ?case
  proof (cases x)
    case (Text s)
    then have "CHR ''{'' \<notin> set s" "CHR ''}'' \<notin> set s"
      using Cons.prems by auto
    then show ?thesis
      using IH by (simp add: Text template_text_def substitute_def py_format_from_text)
  next
    case (Placeholder n)
    then have pn: "plain_name n" and "n \<in> fst ` set kwargs"
      using Cons.prems by auto
    then obtain v where v: "map_of kwargs n = Some v"
      by (metis domD dom_map_of_conv_image_fst)
    have "py_format_from (CHR ''{'' # n @ CHR ''}'' # (template_text ps @ rest)) kwargs out
            = py_format_from (template_text ps @ rest) kwargs (out @ v)"
      by (rule py_format_from_placeholder [OF pn v])
    then show ?thesis
      using IH [of "out @ v"] v
      by (simp add: Placeholder template_text_def substitute_def)
  qed
qed

lemma py_format_pieces:
  assumes "\<forall>x\<in>set ps. piece_ok (map fst kwargs) x"
  shows "py_format (template_text ps) kwargs = Inr (substitute kwargs ps)"
  using py_format_from_pieces [OF assms, of "[]" "[]"] by (simp add: py_format_def)

subsection \<open>Selection by coordinate hashing\<close>

lemma update_fresh:
  "key \<notin> fst ` set acc \<Longrightarrow> AList.update key v acc = acc @ [(key, v)]"
  by (induction acc) auto

lemma edit_hash_pair:
  assumes "int32_ok a" and "int32_ok b"
  shows "\<exists>h. edit_hash seed [a, b] = Inr h \<and> 0 \<le> h \<and> h < 2 ^ 32"
proof -
  have "edit_hash seed [a, b]
          = Inr (uint (xxh32 (word_of_int (seed AND 0xFFFFFFFF)) (le_bytes32 a @ le_bytes32 b)))"
    using assms by (simp add: edit_hash_def)
  moreover have "uint (xxh32 (word_of_int (seed AND 0xFFFFFFFF)) (le_bytes32 a @ le_bytes32 b)) < 2 ^ 32"
    using uint_bounded [of "xxh32 (word_of_int (seed AND 0xFFFFFFFF)) (le_bytes32 a @ le_bytes32 b)"]
    by simp
  ultimately show ?thesis
    by simp
qed

lemma select_in_pool:
  assumes "pool \<noteq> []"
  shows "hash_to_index h (length pool) = Inr (nat (h mod int (length pool)))"
    and "py_index pool (nat (h mod int (length pool))) = Inr (pool ! nat (h mod int (length pool)))"
proof -
  have pos: "0 < int (length pool)"
    using assms by simp
  show "hash_to_index h (length pool) = Inr (nat (h mod int (length pool)))"
    using assms by (simp add: hash_to_index_def)
  have "h mod int (length pool) < int (length pool)"
    using pos by (rule pos_mod_bound)
  moreover have "0 \<le> h mod int (length pool)"
    using pos by (rule pos_mod_sign)
  ultimately have "nat (h mod int (length pool)) < length pool"
    by linarith
  then show "py_index pool (nat (h mod int (length pool))) = Inr (pool ! nat (h mod int (length pool)))"
    by (simp add: py_index_def)
qed

lemma build_components_selects:
  assumes "distinct (map fst ps)"
    and "fst ` set ps \<inter> fst ` set acc = {}"
    and "\<forall>pool\<in>snd ` set ps. pool \<noteq> []"
    and "int32_ok idx"
    and "int i0 + int (length ps) < 2 ^ 31"
  shows "\<exists>cs. build_components seed idx i0 ps acc = Inr (acc @ cs)
           \<and> map fst cs = map fst ps
           \<and> (\<forall>j<length ps. \<exists>h. edit_hash seed [idx, int (i0 + j) + 1] = Inr h
                  \<and> snd (cs ! j) = snd (ps ! j) ! nat (h mod int (length (snd (ps ! j)))))"
  using assms
proof (induction ps arbitrary: i0 acc)
  case Nil
  show ?case by simp
next
  case (Cons a ps)
  obtain key pool where a: "a = (key, pool)"
    by (cases a)
  have slot: "int32_ok (int i0 + 1)"
    using Cons.prems(5) by (simp add: int32_ok_def)
  obtain h where h: "edit_hash seed [idx, int i0 + 1] = Inr h"
    using edit_hash_pair [OF Cons.prems(4) slot] by blast
  have pool: "pool \<noteq> []"
    using Cons.prems(3) by (simp add: a)
  define v where "v = pool ! nat (h mod int (length pool))"
  have fresh: "key \<notin> fst ` set acc"
    using Cons.prems(2) by (auto simp: a)
  have step: "build_components seed idx i0 (a # ps) acc
                = build_components seed idx (Suc i0) ps (acc @ [(key, v)])"
    by (simp add: a h select_in_pool [OF pool] v_def update_fresh [OF fresh])
  have d: "distinct (map fst ps)"
    using Cons.prems(1) by simp
  have disj: "fst ` set ps \<inter> fst ` set (acc @ [(key, v)]) = {}"
    using Cons.prems(1,2) by (auto simp: a)
  have ne: "\<forall>pool\<in>snd ` set ps. pool \<noteq> []"
    using Cons.prems(3) by simp
  have bound: "int (Suc i0) + int (length ps) < 2 ^ 31"
    using Cons.prems(5) by simp
  obtain cs where cs: "build_components seed idx (Suc i0) ps (acc @ [(key, v)]) = Inr ((acc @ [(key, v)]) @ cs)"
    and keys: "map fst cs = map fst ps"
    and sel: "\<forall>j<length ps. \<exists>h. edit_hash seed [idx, int (Suc i0 + j) + 1] = Inr h
                  \<and> snd (cs ! j) = snd (ps ! j) ! nat (h mod int (length (snd (ps ! j))))"
    using Cons.IH [OF d disj ne Cons.prems(4) bound] by blast
  have "\<forall>j<length (a # ps). \<exists>h. edit_hash seed [idx, int (i0 + j) + 1] = Inr h
          \<and> snd (((key, v) # cs) ! j) = snd ((a # ps) ! j) ! nat (h mod int (length (snd ((a # ps) ! j))))"
  proof (intro allI impI)
    fix j
    assume j: "j < length (a # ps)"
    show "\<exists>h. edit_hash seed [idx, int (i0 + j) + 1] = Inr h
          \<and> snd (((key, v) # cs) ! j) = snd ((a # ps) ! j) ! nat (h mod int (length (snd ((a # ps) ! j))))"
    proof (cases j)
      case 0
      then show ?thesis
        using h by (simp add: a v_def)
    next
      case (Suc k)
      then have "k < length ps"
        using j by simp
      then show ?thesis
        using sel Suc by simp
    qed
  qed
  then show ?case
    using step cs keys by (intro exI [of _ "(key, v) # cs"]) (simp add: a)
qed

lemma selection_in_range:
  assumes "int32_ok idx"
    and "int (length (pools p)) < 2 ^ 31"
    and "templates p \<noteq> []"
    and "\<forall>pool\<in>snd ` set (pools p). pool \<noteq> []"
    and "dict_ok p"
  shows "\<exists>th cs.
           edit_hash seed [idx, 0] = Inr th
         \<and> map fst cs = map fst (pools p)
         \<and> (\<forall>j<length (pools p). \<exists>h.
                edit_hash seed [idx, int j + 1] = Inr h
              \<and> snd (cs ! j) = snd (pools p ! j) ! nat (h mod int (length (snd (pools p ! j)))))
         \<and> generate_edit_prompt seed idx p
             = render_template (templates p ! nat (th mod int (length (templates p))))
                 (map fst (pools p)) cs
         \<and> (\<forall>ps. templates p ! nat (th mod int (length (templates p))) = template_text ps
                  \<and> (\<forall>x\<in>set ps. piece_ok (map fst (pools p)) x)
                \<longrightarrow> generate_edit_prompt seed idx p = Inr (substitute cs ps))"
proof -
  have zero: "int32_ok 0"
    by (simp add: int32_ok_def)
  obtain th where th: "edit_hash seed [idx, 0] = Inr th"
    using edit_hash_pair [OF assms(1) zero] by blast
  define t where "t = templates p ! nat (th mod int (length (templates p)))"
  have d: "distinct (map fst (pools p))"
    using assms(5) by (simp add: dict_ok_def)
  have disj: "fst ` set (pools p) \<inter> fst ` set ([] :: (string \<times> string) list) = {}"
    by simp
  have bound: "int 0 + int (length (pools p)) < 2 ^ 31"
    using assms(2) by simp
  obtain cs where cs: "build_components seed idx 0 (pools p) [] = Inr ([] @ cs)"
    and keys: "map fst cs = map fst (pools p)"
    and sel: "\<forall>j<length (pools p). \<exists>h. edit_hash seed [idx, int (0 + j) + 1] = Inr h
                \<and> snd (cs ! j) = snd (pools p ! j) ! nat (h mod int (length (snd (pools p ! j))))"
    using build_components_selects [OF d disj assms(4) assms(1) bound] by blast
  have gen: "generate_edit_prompt seed idx p = render_template t (map fst (pools p)) cs"
    using cs by (simp add: generate_edit_prompt_def th select_in_pool [OF assms(3)] t_def)
  have "generate_edit_prompt seed idx p = Inr (substitute cs ps)"
    if "t = template_text ps" and "\<forall>x\<in>set ps. piece_ok (map fst (pools p)) x" for ps
  proof -
    have "\<forall>x\<in>set ps. piece_ok (map fst cs) x"
      using that(2) keys by simp
    then have "py_format (template_text ps) cs = Inr (substitute cs ps)"
      by (rule py_format_pieces)
    then show ?thesis
      by (simp add: gen that(1) render_template_def)
  qed
  then show ?thesis
    using th keys sel gen unfolding t_def by auto
qed



subsection \<open>Two calls return the same string\<close>

lemma render_field_missing:
  assumes "plain_name n" and "map_of kwargs n = None"
  shows "render_field \<lparr>field_name = n, conversion = None, format_spec = []\<rparr> kwargs = Inl (KeyError n)"
proof -
  have all: "\<forall>c\<in>set n. c \<noteq> CHR ''.'' \<and> c \<noteq> CHR ''[''"
    using assms(1) by (auto simp: plain_name_def name_char_def list_all_iff)
  then have tw: "takeWhile (\<lambda>c. c \<noteq> CHR ''.'' \<and> c \<noteq> CHR ''['') n = n"
    by (simp add: takeWhile_eq_all_conv)
  from all have dw: "dropWhile (\<lambda>c. c \<noteq> CHR ''.'' \<and> c \<noteq> CHR ''['') n = []"
    by simp
  show ?thesis
    using assms by (simp add: render_field_def tw dw plain_name_def)
qed

lemma py_format_from_placeholder_missing:
  assumes "plain_name n" and "map_of kwargs n = None"
  shows "py_format_from (CHR ''{'' # n @ CHR ''}'' # rest) kwargs out = Inl (KeyError n)"
proof -
  from assms(1) obtain d ds where n: "n = d # ds" and d: "d \<noteq> CHR ''{''"
    by (cases n) (auto simp: plain_name_def name_char_def)
  have nc: "list_all name_char n"
    using assms(1) by (simp add: plain_name_def)
  have "py_format_from (CHR ''{'' # (d # ds) @ CHR ''}'' # rest) kwargs out
          = (case parse_field ((d # ds) @ CHR ''}'' # rest) of
               Inl e \<Rightarrow> Inl e
             | Inr (f, rest') \<Rightarrow>
                 (case render_field f kwargs of
                    Inl e \<Rightarrow> Inl e
                  | Inr v \<Rightarrow> py_format_from rest' kwargs (out @ v)))"
    using d by simp
  then show ?thesis
    using parse_field_plain [OF nc, of rest] render_field_missing [OF assms]
    by (simp add: n)
qed

lemma py_format_from_wf:
  assumes "\<forall>x\<in>set ps. piece_wf x"
  shows "(\<exists>s. py_format_from (template_text ps) kwargs out = Inr s)
       \<or> (\<exists>k. py_format_from (template_text ps) kwargs out = Inl (KeyError k))"
  using assms
proof (induction ps arbitrary: out)
  case Nil
  show ?case by (simp add: template_text_def)
next
  case (Cons x ps)
  have IH: "\<And>out. (\<exists>s. py_format_from (template_text ps) kwargs out = Inr s)
       \<or> (\<exists>k. py_format_from (template_text ps) kwargs out = Inl (KeyError k))"
    using Cons by simp
  show ?case
  proof (cases x)
    case (Text s)
    then have "CHR ''{'' \<notin> set s" "CHR ''}'' \<notin> set s"
      using Cons.prems by auto
    then have "py_format_from (template_text (x # ps)) kwargs out
                 = py_format_from (template_text ps) kwargs (out @ s)"
      by (simp add: Text template_text_def py_format_from_text)
    then show ?thesis
      using IH [of "out @ s"] by simp
  next
    case (Placeholder n)
    then have pn: "plain_name n"
      using Cons.prems by simp
    have tt: "template_text (x # ps) = CHR ''{'' # n @ CHR ''}'' # template_text ps"
      by (simp add: Placeholder template_text_def)
    show ?thesis
    proof (cases "map_of kwargs n")
      case None
      then show ?thesis
        unfolding tt using py_format_from_placeholder_missing [OF pn None] by simp
    next
      case (Some v)
      then show ?thesis
        unfolding tt using py_format_from_placeholder [OF pn Some] IH [of "out @ v"] by simp
    qed
  qed
qed

lemma render_template_wf:
  assumes "\<forall>x\<in>set ps. piece_wf x"
  shows "\<exists>s. render_template (template_text ps) keys components = Inr s"
  using py_format_from_wf [OF assms, of components "[]"]
  by (auto simp: render_template_def py_format_def)

lemma generate_edit_prompt_cong:
  assumes "templates q = templates p" and "pools q = pools p"
  shows "generate_edit_prompt seed idx q = generate_edit_prompt seed idx p"
  using assms by (simp add: generate_edit_prompt_def cong: sum.case_cong)

text \<open>
  The claim that two calls return strings for every index and every profile with
  non-empty templates and pools fails in two ways.  Only \<open>KeyError\<close> is caught around
  \<open>template.format\<close>, so a template that \<open>str.format\<close> rejects for another reason, here the
  positional field \<open>{}\<close>, makes the call raise.  And an index from \<open>2^31\<close> on makes the hash
  raise.
\<close>

theorem no_string_counterexample:
  "templates \<lparr>name = ''n'', description = ''d'', version = ''1'',
       templates = [''{} the {target}''], pools = [(''target'', [''sky''])]\<rparr> \<noteq> []
   \<and> [] \<notin> snd ` set (pools \<lparr>name = ''n'', description = ''d'', version = ''1'',
       templates = [''{} the {target}''], pools = [(''target'', [''sky''])]\<rparr>)
   \<and> generate_edit_prompt 42 0
       \<lparr>name = ''n'', description = ''d'', version = ''1'',
        templates = [''{} the {target}''], pools = [(''target'', [''sky''])]\<rparr> = Inl IndexError
   \<and> generate_edit_prompt 42 2147483648
       \<lparr>name = ''n'', description = ''d'', version = ''1'',
        templates = [''{target}''], pools = [(''target'', [''sky''])]\<rparr> = Inl StructError"
  by (simp add: generate_edit_prompt_def edit_hash_def int32_ok_def hash_to_index_def py_index_def
      render_template_def py_format_def parse_field_def render_field_def)

text \<open>
  Claim C1, amended.  For every seed, every index that fits the packed format, and
  every profile with at least one template, pairwise distinct pool names and no empty
  pool, whose templates are made of brace-free text and placeholders with plain names
  (naming a pool or not): the call returns a string, and a second call, on a profile
  with the same templates and pools, returns the same string.
\<close>

theorem generate_edit_prompt_same_string:
  assumes "templates p = map template_text pss"
    and "pss \<noteq> []"
    and "\<forall>ps\<in>set pss. \<forall>x\<in>set ps. piece_wf x"
    and "\<forall>pool\<in>snd ` set (pools p). pool \<noteq> []"
    and "dict_ok p"
    and "int (length (pools p)) < 2 ^ 31"
    and "int32_ok idx"
    and "templates q = templates p"
    and "pools q = pools p"
  shows "\<exists>s. generate_edit_prompt seed idx p = Inr s \<and> generate_edit_prompt seed idx q = Inr s"
proof -
  have ne: "templates p \<noteq> []"
    using assms(1,2) by simp
  obtain th cs where gen: "generate_edit_prompt seed idx p
             = render_template (templates p ! nat (th mod int (length (templates p))))
                 (map fst (pools p)) cs"
    using selection_in_range [OF assms(7) assms(6) ne assms(4) assms(5), of seed] by blast
  define i where "i = nat (th mod int (length (templates p)))"
  have pos: "0 < int (length (templates p))"
    using ne by simp
  have "th mod int (length (templates p)) < int (length (templates p))"
    using pos by (rule pos_mod_bound)
  moreover have "0 \<le> th mod int (length (templates p))"
    using pos by (rule pos_mod_sign)
  ultimately have "i < length (templates p)"
    unfolding i_def by linarith
  then have i: "i < length pss"
    using assms(1) by simp
  then have t: "templates p ! i = template_text (pss ! i)"
    using assms(1) by simp
  have "\<forall>x\<in>set (pss ! i). piece_wf x"
    using assms(3) nth_mem [OF i] by blast
  then obtain s where "render_template (template_text (pss ! i)) (map fst (pools p)) cs = Inr s"
    using render_template_wf by blast
  then have "generate_edit_prompt seed idx p = Inr s"
    using gen t by (simp add: i_def)
  moreover have "generate_edit_prompt seed idx q = generate_edit_prompt seed idx p"
    using assms(8,9) by (rule generate_edit_prompt_cong)
  ultimately show ?thesis
    by simp
qed

theorem generate_edit_prompt_same_string_witness:
  "generate_edit_prompt 42 0
     \<lparr>name = ''first copy'', description = ''d'', version = ''1'',
      templates = [''{action} the {target}''],
      pools = [(''action'', [''remove''])]\<rparr> = Inr ''remove the {target}''
   \<and> generate_edit_prompt 42 0
     \<lparr>name = ''second copy'', description = ''e'', version = ''2'',
      templates = [''{action} the {target}''],
      pools = [(''action'', [''remove''])]\<rparr> = Inr ''remove the {target}''"
proof -
  let ?p = "\<lparr>name = ''first copy'', description = ''d'', version = ''1'',
      templates = [''{action} the {target}''],
      pools = [(''action'', [''remove''])]\<rparr>"
  let ?q = "\<lparr>name = ''second copy'', description = ''e'', version = ''2'',
      templates = [''{action} the {target}''],
      pools = [(''action'', [''remove''])]\<rparr>"
  let ?pss = "[[Placeholder ''action'', Text '' the '', Placeholder ''target'']]"
  have h1: "templates ?p = map template_text ?pss"
    by (simp add: template_text_def)
  have h2: "?pss \<noteq> []"
    by simp
  have h3: "\<forall>ps\<in>set ?pss. \<forall>x\<in>set ps. piece_wf x"
    by (simp add: plain_name_def name_char_def is_digit_def)
  have h4: "\<forall>pool\<in>snd ` set (pools ?p). pool \<noteq> []"
    by simp
  have h5: "dict_ok ?p"
    by (simp add: dict_ok_def)
  have h6: "int (length (pools ?p)) < 2 ^ 31"
    by simp
  have h7: "int32_ok 0"
    by (simp add: int32_ok_def)
  have h8: "templates ?q = templates ?p"
    by simp
  have h9: "pools ?q = pools ?p"
    by simp
  obtain s where s: "generate_edit_prompt 42 0 ?p = Inr s" "generate_edit_prompt 42 0 ?q = Inr s"
    using generate_edit_prompt_same_string [OF h1 h2 h3 h4 h5 h6 h7 h8 h9, of 42] by blast
  have "generate_edit_prompt 42 0 ?p = Inr ''remove the {target}''"
    by (simp add: generate_edit_prompt_def edit_hash_def int32_ok_def hash_to_index_def py_index_def
      render_template_def py_format_def parse_field_def render_field_def is_digit_def
      partial_substitute_def)
  then show ?thesis
    using s by simp
qed

subsection \<open>The pattern scanner finds every placeholder\<close>

lemma not_word_braces: "\<not> is_word CHR ''{''" "\<not> is_word CHR ''}''"
  by (simp_all add: is_word_def)

lemma match_placeholder_at:
  assumes "n \<noteq> []" and "list_all is_word n"
  shows "match_placeholder (CHR ''{'' # n @ CHR ''}'' # post) = Some (n, post)"
proof -
  have all: "\<forall>c\<in>set n. is_word c"
    using assms(2) by (simp add: list_all_iff)
  have tw: "takeWhile is_word (n @ CHR ''}'' # post) = n"
    using all by (simp add: takeWhile_append2 not_word_braces)
  have dw: "dropWhile is_word (n @ CHR ''}'' # post) = CHR ''}'' # post"
    using all by (simp add: dropWhile_append2 not_word_braces)
  show ?thesis
    using assms(1) by (simp add: match_placeholder_def tw dw)
qed

lemma match_placeholder_shape:
  assumes "match_placeholder s = Some (w, rest)"
  shows "s = CHR ''{'' # w @ CHR ''}'' # rest \<and> w \<noteq> [] \<and> list_all is_word w"
proof -
  from assms obtain cs where s: "s = CHR ''{'' # cs"
    and dw: "dropWhile is_word cs = CHR ''}'' # rest"
    and w: "w = takeWhile is_word cs" and ne: "w \<noteq> []"
    by (auto simp: match_placeholder_def split: list.splits if_splits)
  have "cs = takeWhile is_word cs @ dropWhile is_word cs"
    by simp
  then have "cs = w @ CHR ''}'' # rest"
    by (simp add: w dw)
  moreover have "list_all is_word w"
    unfolding w list_all_iff by (auto dest: set_takeWhileD)
  ultimately show ?thesis
    using s ne by simp
qed

text \<open>An occurrence that starts after a match starts after the end of that match.\<close>

lemma occurrence_after_match:
  assumes "list_all is_word w"
    and "w @ CHR ''}'' # rest = pre @ CHR ''{'' # x"
  shows "\<exists>pre'. rest = pre' @ CHR ''{'' # x"
proof (cases "\<forall>c\<in>set pre. is_word c")
  case True
  have "dropWhile is_word (w @ CHR ''}'' # rest) = CHR ''}'' # rest"
    using assms(1) by (simp add: dropWhile_append2 list_all_iff not_word_braces)
  moreover have "dropWhile is_word (pre @ CHR ''{'' # x) = CHR ''{'' # x"
    using True by (simp add: dropWhile_append2 not_word_braces)
  ultimately show ?thesis
    using assms(2) by simp
next
  case False
  then obtain c where c: "c \<in> set pre" "\<not> is_word c"
    by blast
  have l: "dropWhile is_word (w @ CHR ''}'' # rest) = CHR ''}'' # rest"
    using assms(1) by (simp add: dropWhile_append2 list_all_iff not_word_braces)
  have r: "dropWhile is_word (pre @ CHR ''{'' # x) = dropWhile is_word pre @ CHR ''{'' # x"
    using c by (simp add: dropWhile_append1)
  have ne: "dropWhile is_word pre \<noteq> []"
    using c by (auto simp: dropWhile_eq_Nil_conv)
  then obtain d ds where dd: "dropWhile is_word pre = d # ds"
    by (cases "dropWhile is_word pre") auto
  from l r assms(2) have "CHR ''}'' # rest = dropWhile is_word pre @ CHR ''{'' # x"
    by simp
  then have "rest = ds @ CHR ''{'' # x"
    by (simp add: dd)
  then show ?thesis
    by blast
qed

lemma findall_finds:
  assumes "n \<noteq> []" and "list_all is_word n"
  shows "n \<in> set (findall_placeholders (pre @ CHR ''{'' # n @ CHR ''}'' # post))"
proof (induction "pre @ CHR ''{'' # n @ CHR ''}'' # post" arbitrary: pre rule: findall_placeholders.induct)
  case 1
  then show ?case by simp
next
  case (2 c cs)
  show ?case
  proof (cases pre)
    case Nil
    then have "c # cs = CHR ''{'' # n @ CHR ''}'' # post"
      using "2.hyps"(3) by simp
    then have "match_placeholder (c # cs) = Some (n, post)"
      using match_placeholder_at [OF assms] by simp
    then have "findall_placeholders (c # cs) = n # findall_placeholders post"
      by simp
    then show ?thesis
      unfolding "2.hyps"(3) [symmetric] by simp
  next
    case (Cons p pre')
    then have cs: "cs = pre' @ CHR ''{'' # n @ CHR ''}'' # post" and cp: "c = p"
      using "2.hyps"(3) by simp_all
    show ?thesis
    proof (cases "match_placeholder (c # cs)")
      case None
      have "n \<in> set (findall_placeholders (pre' @ CHR ''{'' # n @ CHR ''}'' # post))"
        using "2.hyps"(1) [OF None cs] .
      then have "n \<in> set (findall_placeholders (c # cs))"
        using None cs by simp
      then show ?thesis
        unfolding "2.hyps"(3) [symmetric] .
    next
      case (Some a)
      obtain w rest where a: "a = (w, rest)"
        by (cases a)
      have shape: "c # cs = CHR ''{'' # w @ CHR ''}'' # rest" and ww: "list_all is_word w"
        using match_placeholder_shape [of "c # cs" w rest] Some a by simp_all
      then have "w @ CHR ''}'' # rest = pre' @ CHR ''{'' # (n @ CHR ''}'' # post)"
        using cs by simp
      then obtain pre'' where rest: "rest = pre'' @ CHR ''{'' # n @ CHR ''}'' # post"
        using occurrence_after_match [OF ww] by blast
      have m: "match_placeholder (c # cs) = Some (w, rest)"
        using Some a by simp
      have e: "(w, pre'' @ CHR ''{'' # n @ CHR ''}'' # post) = (w, rest)"
        using rest by simp
      have "n \<in> set (findall_placeholders (pre'' @ CHR ''{'' # n @ CHR ''}'' # post))"
        by (rule "2.hyps"(2) [OF m e])
      then have "n \<in> set (findall_placeholders (c # cs))"
        by (simp add: m rest)
      then show ?thesis
        unfolding "2.hyps"(3) [symmetric] .
    qed
  qed
qed

lemma findall_sound:
  "n \<in> set (findall_placeholders t) \<Longrightarrow> placeholder_in n t"
proof (induction t rule: findall_placeholders.induct)
  case 1
  then show ?case by simp
next
  case (2 c cs)
  show ?case
  proof (cases "match_placeholder (c # cs)")
    case None
    then have "placeholder_in n cs"
      using "2.IH"(1) "2.prems" by simp
    then obtain ps ss where "cs = ps @ (CHR ''{'' # n @ ''}'') @ ss" and nn: "n \<noteq> []" "list_all is_word n"
      by (auto simp: placeholder_in_def sublist_def)
    then have "c # cs = (c # ps) @ (CHR ''{'' # n @ ''}'') @ ss"
      by simp
    then have "sublist (CHR ''{'' # n @ ''}'') (c # cs)"
      unfolding sublist_def by blast
    then show ?thesis
      using nn by (simp add: placeholder_in_def)
  next
    case (Some a)
    obtain w rest where a: "a = (w, rest)"
      by (cases a)
    have shape: "c # cs = CHR ''{'' # w @ CHR ''}'' # rest" "w \<noteq> []" "list_all is_word w"
      using match_placeholder_shape [of "c # cs" w rest] Some a by simp_all
    have m: "match_placeholder (c # cs) = Some (w, rest)"
      using Some a by simp
    from "2.prems" have "n = w \<or> n \<in> set (findall_placeholders rest)"
      by (simp add: m)
    then show ?thesis
    proof
      assume "n = w"
      then have "c # cs = [] @ (CHR ''{'' # n @ ''}'') @ rest"
        using shape(1) by simp
      then have "sublist (CHR ''{'' # n @ ''}'') (c # cs)"
        unfolding sublist_def by blast
      then show ?thesis
        using shape \<open>n = w\<close> by (simp add: placeholder_in_def)
    next
      assume "n \<in> set (findall_placeholders rest)"
      then have "placeholder_in n rest"
        by (rule "2.IH"(2) [OF m refl])
      then obtain ps ss where "rest = ps @ (CHR ''{'' # n @ ''}'') @ ss" and nn: "n \<noteq> []" "list_all is_word n"
        by (auto simp: placeholder_in_def sublist_def)
      then have "c # cs = (CHR ''{'' # w @ CHR ''}'' # ps) @ (CHR ''{'' # n @ ''}'') @ ss"
        using shape(1) by simp
      then have "sublist (CHR ''{'' # n @ ''}'') (c # cs)"
        unfolding sublist_def by blast
      then show ?thesis
        using nn by (simp add: placeholder_in_def)
    qed
  qed
qed

lemma findall_placeholders_iff:
  "n \<in> set (findall_placeholders t) \<longleftrightarrow> placeholder_in n t"
proof
  assume "n \<in> set (findall_placeholders t)"
  then show "placeholder_in n t"
    by (rule findall_sound)
next
  assume "placeholder_in n t"
  then obtain ps ss where "t = ps @ CHR ''{'' # n @ CHR ''}'' # ss" and "n \<noteq> []" "list_all is_word n"
    by (auto simp: placeholder_in_def sublist_def)
  then show "n \<in> set (findall_placeholders t)"
    using findall_finds by simp
qed

subsection \<open>What the validator reports\<close>

lemma py_strip_empty: "py_strip s = [] \<longleftrightarrow> list_all is_space s"
proof
  assume "py_strip s = []"
  then have a: "\<forall>c\<in>set (dropWhile is_space s). is_space c"
    by (simp add: py_strip_def dropWhile_eq_Nil_conv)
  have "dropWhile is_space s = []"
  proof (cases "dropWhile is_space s")
    case Nil
    then show ?thesis .
  next
    case (Cons d ds)
    then have "\<not> is_space d"
      using hd_dropWhile [of is_space s] by simp
    moreover have "is_space d"
      using a Cons by simp
    ultimately show ?thesis
      by simp
  qed
  then show "list_all is_space s"
    by (simp add: dropWhile_eq_Nil_conv list_all_iff)
next
  assume "list_all is_space s"
  then have "dropWhile is_space s = []"
    by (simp add: dropWhile_eq_Nil_conv list_all_iff)
  then show "py_strip s = []"
    by (simp only: py_strip_def dropWhile.simps rev.simps)
qed

lemma duplicate_findings_empty:
  "duplicate_findings k seen items = []
     \<longleftrightarrow> distinct (map py_lower items) \<and> set (map py_lower items) \<inter> set seen = {}"
  by (induction items arbitrary: seen) auto

lemma duplicate_findings_form:
  "x \<in> set (duplicate_findings k seen items) \<Longrightarrow>
   \<exists>item\<in>set items. x = ''Duplicate entry in pool '' @ quoted k @ '': '' @ quoted item"
  by (induction items arbitrary: seen) (auto split: if_splits)

lemma blank_findings_empty:
  "blank_findings k i items = [] \<longleftrightarrow> (\<forall>item\<in>set items. \<not> list_all is_space item)"
  by (induction items arbitrary: i) (auto simp: py_strip_empty)

lemma pool_findings_empty:
  "pool_findings (k, items) = []
     \<longleftrightarrow> items \<noteq> [] \<and> distinct (map py_lower items) \<and> (\<forall>item\<in>set items. \<not> list_all is_space item)"
  by (simp add: pool_findings_def duplicate_findings_empty blank_findings_empty)

lemma validate_pools_empty:
  "validate_pools p = [] \<longleftrightarrow> \<not> has_empty_pool p \<and> \<not> has_duplicate_entry p \<and> \<not> has_blank_entry p"
proof -
  have "validate_pools p = [] \<longleftrightarrow> (\<forall>kv\<in>set (pools p). pool_findings kv = [])"
    by (simp add: validate_pools_def)
  also have "\<dots> \<longleftrightarrow> (\<forall>kv\<in>set (pools p). snd kv \<noteq> [] \<and> distinct (map py_lower (snd kv))
                          \<and> (\<forall>item\<in>set (snd kv). \<not> list_all is_space item))"
    using pool_findings_empty by (metis prod.collapse)
  also have "\<dots> \<longleftrightarrow> \<not> has_empty_pool p \<and> \<not> has_duplicate_entry p \<and> \<not> has_blank_entry p"
    unfolding has_empty_pool_def has_duplicate_entry_def has_blank_entry_def by blast
  finally show ?thesis .
qed

lemma template_findings_empty:
  "template_findings names i ts = []
     \<longleftrightarrow> (\<forall>t\<in>set ts. \<forall>n\<in>set (findall_placeholders t). n \<in> set names)"
  by (induction ts arbitrary: i) (auto simp: filter_empty_conv)

lemma validate_templates_empty:
  "validate_templates p = [] \<longleftrightarrow> \<not> has_undefined_placeholder p"
  unfolding validate_templates_def template_findings_empty has_undefined_placeholder_def
  by (auto simp: findall_placeholders_iff)

lemma template_findings_reports:
  assumes "i < length ts" and "n \<in> set (findall_placeholders (ts ! i))" and "n \<notin> set names"
  shows "''Template '' @ py_str_nat (i0 + i) @ '' references undefined pool '' @ quoted n
           \<in> set (template_findings names i0 ts)"
  using assms
proof (induction ts arbitrary: i i0)
  case Nil
  then show ?case by simp
next
  case (Cons t ts)
  show ?case
  proof (cases i)
    case 0
    then show ?thesis
      using Cons.prems by auto
  next
    case (Suc j)
    then have m: "''Template '' @ py_str_nat (i0 + Suc j) @ '' references undefined pool '' @ quoted n
                 \<in> set (template_findings names (Suc i0) ts)"
      using Cons.IH [of j "Suc i0"] Cons.prems by simp
    show ?thesis
      unfolding Suc using m by simp
  qed
qed

lemma empty_pool_reported:
  assumes "(k, []) \<in> set (pools p)"
  shows "''Pool '' @ quoted k @ '' is empty'' \<in> set (validate_pools p)"
proof -
  have "pool_findings (k, []) = [''Pool '' @ quoted k @ '' is empty'']"
    by (simp add: pool_findings_def)
  then show ?thesis
    using assms unfolding validate_pools_def by force
qed

lemma duplicate_reported:
  assumes "(k, items) \<in> set (pools p)" and "items \<noteq> []" and "\<not> distinct (map py_lower items)"
  shows "\<exists>item\<in>set items.
           ''Duplicate entry in pool '' @ quoted k @ '': '' @ quoted item \<in> set (validate_pools p)"
proof -
  have "duplicate_findings k [] items \<noteq> []"
    using assms(3) by (simp add: duplicate_findings_empty)
  then obtain x where x: "x \<in> set (duplicate_findings k [] items)"
    by (cases "duplicate_findings k [] items") auto
  then obtain item where item: "item \<in> set items"
    and xe: "x = ''Duplicate entry in pool '' @ quoted k @ '': '' @ quoted item"
    using duplicate_findings_form by blast
  have "x \<in> set (pool_findings (k, items))"
    using x assms(2) by (simp add: pool_findings_def)
  then have "x \<in> set (validate_pools p)"
    using assms(1) unfolding validate_pools_def by force
  then show ?thesis
    using item xe by blast
qed

text \<open>
  The claim as the specification words it, "a profile with none of these defects produces
  zero findings" for the three defects empty pool, case-insensitive duplicate and
  undefined placeholder, fails: a pool with a blank entry has none of the three, and
  \<open>validate_pools\<close> reports the blank entry.
\<close>

theorem blank_entry_counterexample:
  "\<not> has_empty_pool \<lparr>name = ''n'', description = ''d'', version = ''1'',
        templates = [''{a}''], pools = [(''a'', [''x'', '' ''])]\<rparr>
   \<and> \<not> has_duplicate_entry \<lparr>name = ''n'', description = ''d'', version = ''1'',
        templates = [''{a}''], pools = [(''a'', [''x'', '' ''])]\<rparr>
   \<and> \<not> has_undefined_placeholder \<lparr>name = ''n'', description = ''d'', version = ''1'',
        templates = [''{a}''], pools = [(''a'', [''x'', '' ''])]\<rparr>
   \<and> validate_pools \<lparr>name = ''n'', description = ''d'', version = ''1'',
        templates = [''{a}''], pools = [(''a'', [''x'', '' ''])]\<rparr>
     @ validate_templates \<lparr>name = ''n'', description = ''d'', version = ''1'',
        templates = [''{a}''], pools = [(''a'', [''x'', '' ''])]\<rparr>
     = [''Empty string at index 1 in pool '' @ quoted ''a'']"
proof -
  let ?p = "\<lparr>name = ''n'', description = ''d'', version = ''1'',
        templates = [''{a}''], pools = [(''a'', [''x'', '' ''])]\<rparr>"
  have f: "findall_placeholders ''{a}'' = [''a'']"
    by (simp add: match_placeholder_def is_word_def)
  have 1: "\<not> has_empty_pool ?p"
    by (simp add: has_empty_pool_def)
  have 2: "\<not> has_duplicate_entry ?p"
    by (simp add: has_duplicate_entry_def py_lower_def lower_char_def)
  have 3: "\<not> has_undefined_placeholder ?p"
    unfolding has_undefined_placeholder_def findall_placeholders_iff [symmetric]
    by (simp add: f del: findall_placeholders.simps)
  have 4: "validate_pools ?p = [''Empty string at index 1 in pool '' @ quoted ''a'']"
    by (simp add: validate_pools_def pool_findings_def py_lower_def lower_char_def py_strip_def
        is_space_def quoted_def digit_char_def py_str_nat.simps [of "Suc 0"])
  have 5: "validate_templates ?p = []"
    by (simp add: validate_templates_def f del: findall_placeholders.simps)
  show ?thesis
    using 1 2 3 4 5 by simp
qed

text \<open>
  Claim C7, amended.  An empty pool, a pool with two entries equal up to case, and a
  template placeholder \<open>{identifier}\<close> naming no pool are each reported by a finding of
  their own; and the validator (\<open>validate_pools\<close> followed by \<open>validate_templates\<close>)
  reports nothing exactly when the profile has no empty pool, no such duplicate, no
  blank entry and no undefined placeholder.
\<close>

theorem validator_findings:
  "((k1, []) \<in> set (pools p)
      \<longrightarrow> ''Pool '' @ quoted k1 @ '' is empty'' \<in> set (validate_pools p))
   \<and> ((k2, items) \<in> set (pools p) \<and> items \<noteq> [] \<and> \<not> distinct (map py_lower items)
      \<longrightarrow> (\<exists>item\<in>set items.
            ''Duplicate entry in pool '' @ quoted k2 @ '': '' @ quoted item \<in> set (validate_pools p)))
   \<and> (i < length (templates p) \<and> placeholder_in n (templates p ! i) \<and> n \<notin> fst ` set (pools p)
      \<longrightarrow> ''Template '' @ py_str_nat i @ '' references undefined pool '' @ quoted n
            \<in> set (validate_templates p))
   \<and> (validate_pools p @ validate_templates p = []
      \<longleftrightarrow> \<not> has_empty_pool p \<and> \<not> has_duplicate_entry p \<and> \<not> has_blank_entry p
          \<and> \<not> has_undefined_placeholder p)"
proof (intro conjI impI)
  assume "(k1, []) \<in> set (pools p)"
  then show "''Pool '' @ quoted k1 @ '' is empty'' \<in> set (validate_pools p)"
    by (rule empty_pool_reported)
next
  assume "(k2, items) \<in> set (pools p) \<and> items \<noteq> [] \<and> \<not> distinct (map py_lower items)"
  then show "\<exists>item\<in>set items.
            ''Duplicate entry in pool '' @ quoted k2 @ '': '' @ quoted item \<in> set (validate_pools p)"
    using duplicate_reported by blast
next
  assume a: "i < length (templates p) \<and> placeholder_in n (templates p ! i) \<and> n \<notin> fst ` set (pools p)"
  then have "n \<in> set (findall_placeholders (templates p ! i))"
    by (simp add: findall_placeholders_iff)
  then show "''Template '' @ py_str_nat i @ '' references undefined pool '' @ quoted n
            \<in> set (validate_templates p)"
    using a template_findings_reports [of i "templates p" n "map fst (pools p)" 0]
    by (simp add: validate_templates_def)
next
  show "validate_pools p @ validate_templates p = []
      \<longleftrightarrow> \<not> has_empty_pool p \<and> \<not> has_duplicate_entry p \<and> \<not> has_blank_entry p
          \<and> \<not> has_undefined_placeholder p"
    by (simp add: validate_pools_empty validate_templates_empty)
qed

theorem validator_findings_witness:
  "''Pool '' @ quoted ''a'' @ '' is empty''
      \<in> set (validate_pools \<lparr>name = ''n'', description = ''d'', version = ''1'',
           templates = [''{b} {zz}''], pools = [(''a'', []), (''b'', [''X'', ''x''])]\<rparr>)
   \<and> (\<exists>item\<in>set [''X'', ''x''].
         ''Duplicate entry in pool '' @ quoted ''b'' @ '': '' @ quoted item
           \<in> set (validate_pools \<lparr>name = ''n'', description = ''d'', version = ''1'',
                 templates = [''{b} {zz}''], pools = [(''a'', []), (''b'', [''X'', ''x''])]\<rparr>))
   \<and> ''Template '' @ py_str_nat 0 @ '' references undefined pool '' @ quoted ''zz''
      \<in> set (validate_templates \<lparr>name = ''n'', description = ''d'', version = ''1'',
           templates = [''{b} {zz}''], pools = [(''a'', []), (''b'', [''X'', ''x''])]\<rparr>)"
proof -
  let ?p = "\<lparr>name = ''n'', description = ''d'', version = ''1'',
           templates = [''{b} {zz}''], pools = [(''a'', []), (''b'', [''X'', ''x''])]\<rparr>"
  have h1: "(''a'', []) \<in> set (pools ?p)"
    by simp
  have h2: "(''b'', [''X'', ''x'']) \<in> set (pools ?p) \<and> [''X'', ''x''] \<noteq> []
              \<and> \<not> distinct (map py_lower [''X'', ''x''])"
    by (simp add: py_lower_def lower_char_def)
  have "''{b} {zz}'' = ''{b} '' @ (CHR ''{'' # ''zz'' @ ''}'') @ []"
    by simp
  then have "sublist (CHR ''{'' # ''zz'' @ ''}'') ''{b} {zz}''"
    unfolding sublist_def by blast
  then have h3: "0 < length (templates ?p) \<and> placeholder_in ''zz'' (templates ?p ! 0)
              \<and> ''zz'' \<notin> fst ` set (pools ?p)"
    by (simp add: placeholder_in_def is_word_def)
  show ?thesis
    using validator_findings [of "''a''" ?p "''b''" "[''X'', ''x'']" 0 "''zz''"] h1 h2 h3
    by blast
qed

subsection \<open>The loader\<close>

lemma load_profile_missing:
  "map_of dir n = None \<Longrightarrow> load_profile dir n = Inl (FileNotFoundError (''Profile not found: '' @ n))"
  by (simp add: load_profile_def)

lemma load_profile_bad:
  "map_of dir n = Some (BadFile m) \<Longrightarrow> load_profile dir n = Inl (JSONDecodeError m)"
  by (simp add: load_profile_def)

lemma load_profile_object:
  "map_of dir n = Some (JsonFile (JObj kvs)) \<Longrightarrow>
   load_profile dir n =
     (if ''templates'' \<notin> fst ` set kvs then
        Inl (ValueError (''Profile '' @ n @ '' missing '' @ quoted ''templates'' @ '' field''))
      else if ''pools'' \<notin> fst ` set kvs then
        Inl (ValueError (''Profile '' @ n @ '' missing '' @ quoted ''pools'' @ '' field''))
      else Inr (JObj kvs))"
  by (simp add: load_profile_def)

text \<open>
  The claim that the loader raises a schema error for a wrong-typed or empty field
  fails: a file whose \<open>templates\<close> is the empty list and whose \<open>pools\<close> is a number is
  returned as it is.
\<close>

theorem load_profile_unchecked_counterexample:
  "load_profile
     [(''p.json'', JsonFile (JObj [(''templates'', JArr []), (''pools'', JNum 5)]))] ''p.json''
   = Inr (JObj [(''templates'', JArr []), (''pools'', JNum 5)])"
  by (simp add: load_profile_def)

text \<open>
  Claim C6, amended.  \<open>load_profile\<close> raises \<open>FileNotFoundError\<close> when the name resolves to
  nothing, the decoder's error when the file is not valid JSON, and \<open>ValueError\<close> exactly
  when the decoded object lacks the key \<open>templates\<close> or the key \<open>pools\<close> (\<open>templates\<close> is
  looked for first); otherwise it returns the decoded object, whatever the type or the
  size of the two fields.
\<close>

theorem load_profile_outcomes:
  "(map_of dir n = None
      \<longrightarrow> load_profile dir n = Inl (FileNotFoundError (''Profile not found: '' @ n)))
   \<and> (map_of dir n = Some (BadFile m) \<longrightarrow> load_profile dir n = Inl (JSONDecodeError m))
   \<and> (map_of dir n = Some (JsonFile (JObj kvs))
      \<longrightarrow> load_profile dir n =
            (if ''templates'' \<notin> fst ` set kvs then
               Inl (ValueError (''Profile '' @ n @ '' missing '' @ quoted ''templates'' @ '' field''))
             else if ''pools'' \<notin> fst ` set kvs then
               Inl (ValueError (''Profile '' @ n @ '' missing '' @ quoted ''pools'' @ '' field''))
             else Inr (JObj kvs)))"
  using load_profile_missing load_profile_bad load_profile_object by blast

theorem load_profile_outcomes_witness:
  "load_profile [(''bad.json'', BadFile ''Expecting value: line 1 column 1 (char 0)''),
                 (''half.json'', JsonFile (JObj [(''templates'', JArr [JStr ''{a}''])])),
                 (''ok.json'', JsonFile (JObj [(''templates'', JArr [JStr ''{a}'']),
                                              (''pools'', JObj [(''a'', JArr [JStr ''x''])])]))]
       ''none.json'' = Inl (FileNotFoundError ''Profile not found: none.json'')
   \<and> load_profile [(''bad.json'', BadFile ''Expecting value: line 1 column 1 (char 0)''),
                 (''half.json'', JsonFile (JObj [(''templates'', JArr [JStr ''{a}''])])),
                 (''ok.json'', JsonFile (JObj [(''templates'', JArr [JStr ''{a}'']),
                                              (''pools'', JObj [(''a'', JArr [JStr ''x''])])]))]
       ''bad.json'' = Inl (JSONDecodeError ''Expecting value: line 1 column 1 (char 0)'')
   \<and> load_profile [(''bad.json'', BadFile ''Expecting value: line 1 column 1 (char 0)''),
                 (''half.json'', JsonFile (JObj [(''templates'', JArr [JStr ''{a}''])])),
                 (''ok.json'', JsonFile (JObj [(''templates'', JArr [JStr ''{a}'']),
                                              (''pools'', JObj [(''a'', JArr [JStr ''x''])])]))]
       ''half.json'' = Inl (ValueError (''Profile half.json missing '' @ quoted ''pools'' @ '' field''))"
proof -
  let ?dir = "[(''bad.json'', BadFile ''Expecting value: line 1 column 1 (char 0)''),
                 (''half.json'', JsonFile (JObj [(''templates'', JArr [JStr ''{a}''])])),
                 (''ok.json'', JsonFile (JObj [(''templates'', JArr [JStr ''{a}'']),
                                              (''pools'', JObj [(''a'', JArr [JStr ''x''])])]))]"
  have 1: "map_of ?dir ''none.json'' = None"
    by simp
  have 2: "map_of ?dir ''bad.json'' = Some (BadFile ''Expecting value: line 1 column 1 (char 0)'')"
    by simp
  have 3: "map_of ?dir ''half.json'' = Some (JsonFile (JObj [(''templates'', JArr [JStr ''{a}''])]))"
    by simp
  have a: "load_profile ?dir ''none.json'' = Inl (FileNotFoundError (''Profile not found: '' @ ''none.json''))"
    using load_profile_outcomes [of ?dir "''none.json''"] 1 by blast
  have b: "load_profile ?dir ''bad.json'' = Inl (JSONDecodeError ''Expecting value: line 1 column 1 (char 0)'')"
    using load_profile_outcomes [of ?dir "''bad.json''" "''Expecting value: line 1 column 1 (char 0)''"] 2
    by blast
  have "load_profile ?dir ''half.json'' =
          (if ''templates'' \<notin> fst ` set [(''templates'', JArr [JStr ''{a}''])] then
               Inl (ValueError (''Profile '' @ ''half.json'' @ '' missing '' @ quoted ''templates'' @ '' field''))
             else if ''pools'' \<notin> fst ` set [(''templates'', JArr [JStr ''{a}''])] then
               Inl (ValueError (''Profile '' @ ''half.json'' @ '' missing '' @ quoted ''pools'' @ '' field''))
             else Inr (JObj [(''templates'', JArr [JStr ''{a}''])]))"
    using load_profile_outcomes [of ?dir "''half.json''" _ "[(''templates'', JArr [JStr ''{a}''])]"] 3
    by blast
  then have c: "load_profile ?dir ''half.json''
                  = Inl (ValueError (''Profile half.json missing '' @ quoted ''pools'' @ '' field''))"
    by simp
  show ?thesis
    using a b c by simp
qed

subsection \<open>The profile cache when loading fails\<close>

text \<open>
  Claim C10.  When the profile is not cached and loading fails because the file is
  missing, is not valid JSON or lacks a required field, \<open>generate\<close> returns the string
  \<open>[Error loading profile 'name': message]\<close> instead of raising and leaves the cache as it
  was; the name is still absent from it, so a later call loads again: once the file
  loads, that call stores the loaded profile under the name.
\<close>

theorem generate_load_failure:
  assumes "map_of cache profile = None"
    and "map_of dir profile = None
         \<or> (\<exists>m. map_of dir profile = Some (BadFile m))
         \<or> (\<exists>kvs. map_of dir profile = Some (JsonFile (JObj kvs))
                \<and> (''templates'' \<notin> fst ` set kvs \<or> ''pools'' \<notin> fst ` set kvs))"
  shows "\<exists>m. generate dir cache profile seed prompt_index prefix_str suffix_str
               = (Inr (''[Error loading profile '' @ quoted profile @ '': '' @ m @ '']''), cache)
           \<and> (\<forall>dir' profile_data seed' index'.
                 load_profile dir' profile = Inr profile_data
                 \<longrightarrow> snd (generate dir'
                            (snd (generate dir cache profile seed prompt_index prefix_str suffix_str))
                            profile seed' index' prefix_str suffix_str)
                     = AList.update profile profile_data cache)"
proof -
  have "\<exists>e m. load_profile dir profile = Inl e \<and> caught_message e = Some m"
    using assms(2)
  proof (elim disjE exE conjE)
    assume "map_of dir profile = None"
    then show ?thesis
      by (simp add: load_profile_missing)
  next
    fix m
    assume "map_of dir profile = Some (BadFile m)"
    then show ?thesis
      by (simp add: load_profile_bad)
  next
    fix kvs
    assume "map_of dir profile = Some (JsonFile (JObj kvs))" and "''templates'' \<notin> fst ` set kvs"
    then show ?thesis
      by (simp add: load_profile_object)
  next
    fix kvs
    assume "map_of dir profile = Some (JsonFile (JObj kvs))" and "''pools'' \<notin> fst ` set kvs"
    then show ?thesis
      by (simp add: load_profile_object)
  qed
  then obtain e m where e: "load_profile dir profile = Inl e" and m: "caught_message e = Some m"
    by blast
  have g: "generate dir cache profile seed prompt_index prefix_str suffix_str
             = (Inr (''[Error loading profile '' @ quoted profile @ '': '' @ m @ '']''), cache)"
    using assms(1) e m by (simp add: generate_def)
  have "snd (generate dir' cache profile seed' index' prefix_str suffix_str) = AList.update profile profile_data cache"
    if "load_profile dir' profile = Inr profile_data" for dir' profile_data seed' index'
    using assms(1) that by (simp add: generate_def)
  then show ?thesis
    using g by auto
qed

theorem generate_load_failure_witness:
  "generate [] [(''other.json'', JNull)] ''missing.json'' 42 0 ''pre'' ''''
     = (Inr (''[Error loading profile '' @ quoted ''missing.json'' @ '': Profile not found: missing.json]''),
        [(''other.json'', JNull)])"
proof -
  have 1: "map_of [(''other.json'', JNull)] ''missing.json'' = None"
    by simp
  have 2: "map_of ([] :: profiles_dir) ''missing.json'' = None
         \<or> (\<exists>m. map_of ([] :: profiles_dir) ''missing.json'' = Some (BadFile m))
         \<or> (\<exists>kvs. map_of ([] :: profiles_dir) ''missing.json'' = Some (JsonFile (JObj kvs))
                \<and> (''templates'' \<notin> fst ` set kvs \<or> ''pools'' \<notin> fst ` set kvs))"
    by simp
  obtain m where "generate [] [(''other.json'', JNull)] ''missing.json'' 42 0 ''pre'' ''''
               = (Inr (''[Error loading profile '' @ quoted ''missing.json'' @ '': '' @ m @ '']''),
                  [(''other.json'', JNull)])"
    using generate_load_failure [OF 1 2, of 42 0 "''pre''" "''''"] by blast
  moreover have "generate [] [(''other.json'', JNull)] ''missing.json'' 42 0 ''pre'' ''''
               = (Inr (''[Error loading profile '' @ quoted ''missing.json'' @ '': Profile not found: missing.json]''),
                  [(''other.json'', JNull)])"
    by (simp add: generate_def load_profile_def)
  ultimately show ?thesis
    by simp
qed

subsection \<open>The tools against the generator\<close>

lemma hash_coords_xxhash: "hash_coords True seed coords = edit_hash seed coords"
  by (simp add: hash_coords_def edit_hash_def)

lemma py_mod_hash_to_index: "py_mod h n = hash_to_index h n"
  by (simp add: py_mod_def hash_to_index_def)

lemma ps_components_xxhash:
  "ps_components True seed idx i ps comps = build_components seed idx i ps comps"
proof (induction ps arbitrary: i comps)
  case Nil
  show ?case by simp
next
  case (Cons a ps)
  obtain key pool where a: "a = (key, pool)"
    by (cases a)
  show ?case
    unfolding a ps_components.simps build_components.simps hash_coords_xxhash py_mod_hash_to_index
      Cons.IH ..
qed

lemma edit_hash_42_0_0: "edit_hash 42 [0, 0] = Inr 1076387279"
  by code_simp

lemma md5_int_42_0_0: "md5_int ''42-0-0'' mod 2 = 0"
  by code_simp

lemma test_input_42_0_0: "py_str_int 42 @ ''-'' @ py_str_nat 0 @ ''-0'' = ''42-0-0''"
  by code_simp

text \<open>
  The validator's test output is not the generator's text: for seed 42, index 0 and a
  profile with the templates \<open>A {x}\<close> and \<open>C {x}\<close> and the pool \<open>x\<close>, the generator gives
  \<open>C p\<close> and the test output is \<open>A p\<close>.
\<close>

theorem test_output_differs_counterexample:
  "generate_edit_prompt 42 0
     \<lparr>name = ''n'', description = ''d'', version = ''1'',
      templates = [''A {x}'', ''C {x}''], pools = [(''x'', [''p''])]\<rparr> = Inr ''C p''
   \<and> generate_test_output
     \<lparr>name = ''n'', description = ''d'', version = ''1'',
      templates = [''A {x}'', ''C {x}''], pools = [(''x'', [''p''])]\<rparr> 42 1 = Inr [''A p'']"
proof -
  let ?p = "\<lparr>name = ''n'', description = ''d'', version = ''1'',
      templates = [''A {x}'', ''C {x}''], pools = [(''x'', [''p''])]\<rparr>"
  have ok: "int32_ok 0" "int32_ok (int 0 + 1)"
    by (simp_all add: int32_ok_def)
  obtain h where h: "edit_hash 42 [0, int 0 + 1] = Inr h"
    using edit_hash_pair [OF ok] by blast
  have fmt: "py_format ''C {x}'' [(''x'', ''p'')] = Inr ''C p''"
    "py_format ''A {x}'' [(''x'', ''p'')] = Inr ''A p''"
    by (simp_all add: py_format_def parse_field_def render_field_def is_digit_def)
  have core: "generate_edit_prompt 42 0 ?p = Inr ''C p''"
    using h by (simp add: generate_edit_prompt_def edit_hash_42_0_0 hash_to_index_def py_index_def
        render_template_def fmt)
  have sel: "py_mod (md5_int (py_str_int 42 @ ''-'' @ py_str_nat 0 @ ''-0'')) (length (templates ?p)) = Inr 0"
    unfolding test_input_42_0_0 by (simp add: py_mod_def md5_int_42_0_0)
  have "test_output ?p 42 0 = Inr ''A p''"
    unfolding test_output_def sel by (simp add: py_mod_def py_index_def fmt)
  then have "generate_test_output ?p 42 1 = Inr [''A p'']"
    by (simp add: generate_test_output_def)
  then show ?thesis
    using core by simp
qed

text \<open>
  Claim C5, amended.  With the \<open>xxhash\<close> module present, \<open>generate_prompt\<close> of the
  statistics tool has the outcome of \<open>generate_edit_prompt\<close> for every seed, index and
  profile.
\<close>

theorem generate_prompt_matches_core:
  "generate_prompt True seed idx p = generate_edit_prompt seed idx p"
  unfolding generate_prompt_def generate_edit_prompt_def hash_coords_xxhash py_mod_hash_to_index
    ps_components_xxhash ..

end
